theory Spec2Isabelle
  imports Complex_Main "HOL-Library.Log_Nat"
begin

section \<open>LUNARA storefront backend: points, tiers, discounts and settlement\<close>

text \<open>
  The embedding follows \<^verbatim>\<open>src/index.ts\<close>. Amounts are integer cents and points are
  integers (the columns \<^verbatim>\<open>points_balance\<close>, \<^verbatim>\<open>amount\<close>, \<^verbatim>\<open>subtotal\<close>, \<^verbatim>\<open>total\<close> are
  \<^verbatim>\<open>INTEGER\<close>), so they are \<^typ>\<open>int\<close> here. The numbers of the source are IEEE doubles.
  The points earned and the cents of a cart item multiply by numbers that are not binary
  fractions (\<^verbatim>\<open>1.1\<close>, a price in euros); there every literal and every operation is rounded
  to a double, by \<open>double\<close> below. The discount arithmetic works on integers with the
  divisors 5, 20 and 100; it is computed with exact rationals, and \<^verbatim>\<open>Math.floor\<close> is
  \<^const>\<open>floor\<close>. Sums and products of integers are exact.
\<close>

subsection \<open>Doubles\<close>

text \<open>
  A double is a rational \<open>m * 2 ^ e\<close> with an integer \<open>m\<close> of at most 53 bits. \<open>double x\<close>
  is the double nearest to \<open>x\<close>, ties going to the even mantissa, as the arithmetic of the
  source rounds every result. \<open>expo x\<close> is the binary exponent of a positive \<open>x\<close>, the \<open>e\<close>
  with \<open>2 ^ e \<le> x < 2 ^ (e + 1)\<close>, and \<open>rne\<close> rounds the scaled mantissa to an integer. The
  bounds of the exponent of a double (overflow above \<open>2 ^ 1024\<close>, subnormal numbers below
  \<open>2 ^ - 1022\<close>) are not modelled; no amount comes near them.
\<close>

definition rne :: "rat \<Rightarrow> int" where
  "rne q = (let f = \<lfloor>q\<rfloor>; d = q - of_int f
            in if d < 1 / 2 then f else if 1 / 2 < d then f + 1
               else if even f then f else f + 1)"

definition expo :: "rat \<Rightarrow> int" where
  "expo x = (if 1 \<le> x then bitlen \<lfloor>x\<rfloor> - 1 else - bitlen (\<lceil>1 / x\<rceil> - 1))"

definition double :: "rat \<Rightarrow> rat" where
  "double x =
     (if x = 0 then 0
      else let u = 2 powi (expo \<bar>x\<bar> - 52)
           in sgn x * of_int (rne (\<bar>x\<bar> / u)) * u)"

subsection \<open>Numbers that may be \<^verbatim>\<open>Infinity\<close>\<close>

text \<open>
  The upper bound of the last tier is \<^verbatim>\<open>Infinity\<close>, and \<^verbatim>\<open>getTier\<close> compares its
  argument with it, so the argument and the bounds are integers extended by \<^verbatim>\<open>Infinity\<close>.
\<close>

datatype number = Fin int | Infinity

fun num_le :: "number \<Rightarrow> number \<Rightarrow> bool" where
  "num_le (Fin a) (Fin b) = (a \<le> b)"
| "num_le (Fin a) Infinity = True"
| "num_le Infinity (Fin b) = False"
| "num_le Infinity Infinity = True"

subsection \<open>\<^verbatim>\<open>POINTS_CONFIG\<close>\<close>

record Tier =
  name :: string
  tier_min :: int
  tier_max :: number
  bonusMultiplier :: rat

definition EARN_PER_EURO :: int where "EARN_PER_EURO = 1"
definition SIGNUP_BONUS :: int where "SIGNUP_BONUS = 50"
definition NEWSLETTER_BONUS :: int where "NEWSLETTER_BONUS = 25"
definition REVIEW_BONUS :: int where "REVIEW_BONUS = 100"
definition POINTS_PER_EURO_DISCOUNT :: int where "POINTS_PER_EURO_DISCOUNT = 20"
definition MAX_DISCOUNT_PERCENT :: int where "MAX_DISCOUNT_PERCENT = 20"
definition MIN_ORDER_FOR_REDEMPTION :: int where "MIN_ORDER_FOR_REDEMPTION = 30"

definition MOON :: Tier where
  "MOON = \<lparr>name = ''MOON'', tier_min = 0, tier_max = Fin 499, bonusMultiplier = 1\<rparr>"

definition ECLIPSE :: Tier where
  "ECLIPSE = \<lparr>name = ''ECLIPSE'', tier_min = 500, tier_max = Fin 1499, bonusMultiplier = 11 / 10\<rparr>"

definition NOVA :: Tier where
  "NOVA = \<lparr>name = ''NOVA'', tier_min = 1500, tier_max = Infinity, bonusMultiplier = 5 / 4\<rparr>"

definition TIERS :: "Tier list" where
  "TIERS = [MOON, ECLIPSE, NOVA]"

subsection \<open>Utility functions\<close>

text \<open>The predicate of \<^verbatim>\<open>getTier\<close>: \<^verbatim>\<open>points >= t.min && points <= t.max\<close>.\<close>

definition in_tier :: "number \<Rightarrow> Tier \<Rightarrow> bool" where
  "in_tier points t = (num_le (Fin (tier_min t)) points \<and> num_le points (tier_max t))"

text \<open>\<^verbatim>\<open>TIERS.find(...) || TIERS[0]\<close>\<close>

definition getTier :: "number \<Rightarrow> Tier" where
  "getTier points = (case find (in_tier points) TIERS of Some t \<Rightarrow> t | None \<Rightarrow> TIERS ! 0)"

text \<open>
  \<^verbatim>\<open>amountCents / 100\<close>, \<^verbatim>\<open>euros * EARN_PER_EURO\<close> and
  \<^verbatim>\<open>basePoints * tier.bonusMultiplier\<close> are operations on doubles; the multiplier of the
  tier is the double of its literal.
\<close>

definition calculatePointsEarned :: "int \<Rightarrow> Tier \<Rightarrow> int" where
  "calculatePointsEarned amountCents tier =
     (let euros = double (double (of_int amountCents) / 100);
          basePoints = \<lfloor>double (euros * of_int EARN_PER_EURO)\<rfloor>
      in \<lfloor>double (of_int basePoints * double (bonusMultiplier tier))\<rfloor>)"

record MaxDiscount =
  maxPoints :: int
  maxDiscountCents :: int

text \<open>
  The two local constants of \<^verbatim>\<open>calculateMaxDiscount\<close>, named so that statements can
  refer to them.
\<close>

definition maxByPercent :: "int \<Rightarrow> int" where
  "maxByPercent cartTotalCents =
     \<lfloor>(of_int cartTotalCents :: rat) * (of_int MAX_DISCOUNT_PERCENT / 100)\<rfloor>"

definition maxByBalance :: "int \<Rightarrow> int" where
  "maxByBalance pointsBalance =
     \<lfloor>(of_int pointsBalance :: rat) / of_int POINTS_PER_EURO_DISCOUNT\<rfloor> * 100"

definition calculateMaxDiscount :: "int \<Rightarrow> int \<Rightarrow> MaxDiscount" where
  "calculateMaxDiscount cartTotalCents pointsBalance =
     (let maxDiscountCents = min (maxByPercent cartTotalCents) (maxByBalance pointsBalance);
          maxPoints = \<lfloor>(of_int maxDiscountCents :: rat) / 100 * of_int POINTS_PER_EURO_DISCOUNT\<rfloor>
      in \<lparr>maxPoints = maxPoints, maxDiscountCents = maxDiscountCents\<rparr>)"

subsection \<open>The body of \<^verbatim>\<open>/api/points/calculate-discount\<close>\<close>

text \<open>
  The request's \<^verbatim>\<open>pointsToUse\<close> is optional; \<^verbatim>\<open>pointsToUse || maxPoints\<close> takes
  \<^verbatim>\<open>maxPoints\<close> when the field is absent and when it is \<^verbatim>\<open>0\<close>.
\<close>

definition or_else :: "int option \<Rightarrow> int \<Rightarrow> int" where
  "or_else v d = (case v of None \<Rightarrow> d | Some x \<Rightarrow> if x = 0 then d else x)"

record DiscountResponse =
  pointsAvailable :: int
  maxPointsUsable :: int
  maxDiscountCents_r :: int
  pointsToUse :: int
  discountCents :: int
  newTotal :: int

text \<open>The error responses of the handlers, with their HTTP status.\<close>

datatype error =
    BadRequest          \<comment> \<open>400, a missing or malformed field, or a registered e-mail\<close>
  | NotLoggedIn         \<comment> \<open>401, no valid session\<close>
  | InvalidCredentials  \<comment> \<open>401, unknown e-mail, wrong password or unverified account\<close>
  | UserNotFound        \<comment> \<open>404\<close>
  | MinOrderNotMet      \<comment> \<open>400 with \<^verbatim>\<open>canRedeem: false\<close>\<close>
  | CartEmpty           \<comment> \<open>400\<close>
  | CheckoutFailed      \<comment> \<open>500, the call to the payment gateway threw\<close>
  | MissingSignature    \<comment> \<open>400\<close>
  | WebhookFailed       \<comment> \<open>400, the signature did not verify\<close>

text \<open>
  Lines 423 to 441 of the handler, after the session and the user row have been read:
  \<^verbatim>\<open>points_balance\<close> is the balance of the row.
\<close>

definition calculate_discount :: "int \<Rightarrow> int option \<Rightarrow> int \<Rightarrow> error + DiscountResponse" where
  "calculate_discount cartTotalCents pointsToUse_req points_balance =
     (if cartTotalCents < MIN_ORDER_FOR_REDEMPTION * 100 then Inl MinOrderNotMet
      else
        let md = calculateMaxDiscount cartTotalCents points_balance;
            actualPointsToUse = min (or_else pointsToUse_req (maxPoints md)) (maxPoints md);
            discountCents = \<lfloor>(of_int actualPointsToUse :: rat) / of_int POINTS_PER_EURO_DISCOUNT\<rfloor> * 100
        in Inr \<lparr>pointsAvailable = points_balance,
                maxPointsUsable = maxPoints md,
                maxDiscountCents_r = maxDiscountCents md,
                pointsToUse = actualPointsToUse,
                discountCents = discountCents,
                newTotal = cartTotalCents - discountCents\<rparr>)"

subsection \<open>Tables, session store and gateway\<close>

text \<open>
  A table is the list of its rows in insertion order: \<^verbatim>\<open>INSERT\<close> appends a row,
  \<^verbatim>\<open>SELECT ... WHERE id = ?\<close> with \<^verbatim>\<open>.first()\<close> is \<^const>\<open>find\<close>, \<^verbatim>\<open>UPDATE ... WHERE\<close> maps
  over the rows and \<^verbatim>\<open>DELETE ... WHERE\<close> filters them. Identifiers and tokens
  (\<^verbatim>\<open>generateId\<close>, \<^verbatim>\<open>generateToken\<close>) are natural numbers drawn from a supply that never
  repeats a value. Timestamp columns are left out, except that \<^verbatim>\<open>verified_at\<close> is kept as
  "is set". A statement of the database is taken to succeed: a failure of a foreign key of
  \<^verbatim>\<open>schema.sql\<close> is not a branch of the model. The one external call that the model lets
  fail is the creation of the checkout session at the gateway.
\<close>

type_synonym id = nat

record User =
  uid :: id
  email :: string
  user_name :: "string option"
  password_hash :: string
  points_balance :: int
  tier :: string
  verified_at :: bool

datatype tx_type = EARN | SPEND | ADJUST | EXPIRE

datatype tx_source = ORDER | SIGNUP | NEWSLETTER | REVIEW | ADMIN | REFUND

record LedgerEntry =
  tx_id :: id
  user_id :: id
  amount :: int
  tx_type :: tx_type
  source :: "tx_source option"
  reference_id :: "id option"

datatype order_status = pending | paid | shipped | delivered | cancelled | refunded

record Order =
  order_id :: id
  order_user_id :: "id option"
  stripe_session_id :: "id option"
  status :: order_status
  subtotal :: int
  discount :: int
  points_used :: int
  points_earned :: int
  order_total :: int

record Session =
  userId :: id
  session_email :: string
  session_name :: "string option"
  session_tier :: string
  createdAt :: nat
  expiresAt :: nat

record CartItem =
  productId :: int
  quantity :: int
  price :: rat
  item_name :: string

text \<open>
  The metadata that \<^verbatim>\<open>create-session\<close> attaches to the checkout session and that the
  webhook reads back. A field is \<^const>\<open>None\<close> when it is absent or the empty string
  (both falsy); \<^verbatim>\<open>pointsUsed\<close> and \<^verbatim>\<open>discountCents\<close> are the integers that
  \<^verbatim>\<open>toString\<close> wrote and \<^verbatim>\<open>parseInt\<close> reads.
\<close>

record Metadata =
  md_orderId :: "id option"
  md_userId :: "id option"
  md_pointsUsed :: "int option"
  md_discountCents :: "int option"

datatype stripe_event = CheckoutSessionCompleted Metadata | OtherEvent

record state =
  users :: "User list"
  points_transactions :: "LedgerEntry list"
  orders :: "Order list"
  newsletter_subscribers :: "string list"
  SESSIONS :: "id \<rightharpoonup> Session"
  stripe_sessions :: "(id \<times> Metadata) list"
  next_id :: id

definition init_state :: state where
  "init_state = \<lparr>users = [], points_transactions = [], orders = [],
     newsletter_subscribers = [], SESSIONS = Map.empty, stripe_sessions = [], next_id = 0\<rparr>"

text \<open>\<^verbatim>\<open>generateId()\<close> and \<^verbatim>\<open>generateToken()\<close>: the next value of the supply.\<close>

definition generateId :: "state \<Rightarrow> id \<times> state" where
  "generateId s = (next_id s, s\<lparr>next_id := Suc (next_id s)\<rparr>)"

subsection \<open>The statements of the handlers\<close>

definition select_user :: "id \<Rightarrow> state \<Rightarrow> User option" where
  "select_user i s = find (\<lambda>u. uid u = i) (users s)"

definition select_user_by_email :: "string \<Rightarrow> state \<Rightarrow> User option" where
  "select_user_by_email e s = find (\<lambda>u. email u = e) (users s)"

definition select_order :: "id \<Rightarrow> state \<Rightarrow> Order option" where
  "select_order i s = find (\<lambda>ord. order_id ord = i) (orders s)"

text \<open>\<^verbatim>\<open>UPDATE users SET points_balance = points_balance + ? WHERE id = ?\<close>\<close>

definition add_points :: "int \<Rightarrow> id \<Rightarrow> state \<Rightarrow> state" where
  "add_points d i s =
     s\<lparr>users := map (\<lambda>u. if uid u = i then u\<lparr>points_balance := points_balance u + d\<rparr> else u) (users s)\<rparr>"

text \<open>\<^verbatim>\<open>UPDATE users SET tier = ? WHERE id = ?\<close>\<close>

definition set_tier :: "string \<Rightarrow> id \<Rightarrow> state \<Rightarrow> state" where
  "set_tier t i s =
     s\<lparr>users := map (\<lambda>u. if uid u = i then u\<lparr>tier := t\<rparr> else u) (users s)\<rparr>"

text \<open>\<^verbatim>\<open>UPDATE users SET name = ? WHERE id = ?\<close>\<close>

definition set_name :: "string option \<Rightarrow> id \<Rightarrow> state \<Rightarrow> state" where
  "set_name n i s =
     s\<lparr>users := map (\<lambda>u. if uid u = i then u\<lparr>user_name := n\<rparr> else u) (users s)\<rparr>"

text \<open>\<^verbatim>\<open>UPDATE users SET password_hash = ? WHERE id = ?\<close>\<close>

definition set_password_hash :: "string \<Rightarrow> id \<Rightarrow> state \<Rightarrow> state" where
  "set_password_hash h i s =
     s\<lparr>users := map (\<lambda>u. if uid u = i then u\<lparr>password_hash := h\<rparr> else u) (users s)\<rparr>"

text \<open>\<^verbatim>\<open>UPDATE users SET verified_at = datetime('now'), verification_token = NULL WHERE id = ?\<close>\<close>

definition set_verified :: "id \<Rightarrow> state \<Rightarrow> state" where
  "set_verified i s =
     s\<lparr>users := map (\<lambda>u. if uid u = i then u\<lparr>verified_at := True\<rparr> else u) (users s)\<rparr>"

text \<open>
  \<^verbatim>\<open>INSERT INTO points_transactions (id, user_id, amount, type, source, reference_id, ...)\<close>
  with \<^verbatim>\<open>generateId()\<close> as the id.
\<close>

definition insert_transaction ::
  "id \<Rightarrow> int \<Rightarrow> tx_type \<Rightarrow> tx_source \<Rightarrow> id option \<Rightarrow> state \<Rightarrow> state" where
  "insert_transaction i a ty src ref s =
     (let (txid, s1) = generateId s
      in s1\<lparr>points_transactions := points_transactions s1 @
              [\<lparr>tx_id = txid, user_id = i, amount = a, tx_type = ty,
                source = Some src, reference_id = ref\<rparr>]\<rparr>)"

text \<open>\<^verbatim>\<open>UPDATE orders SET status = 'paid', paid_at = datetime('now') WHERE id = ?\<close>\<close>

definition set_paid :: "id \<Rightarrow> state \<Rightarrow> state" where
  "set_paid i s =
     s\<lparr>orders := map (\<lambda>ord. if order_id ord = i then ord\<lparr>status := paid\<rparr> else ord) (orders s)\<rparr>"

text \<open>\<^verbatim>\<open>UPDATE orders SET points_earned = ? WHERE id = ?\<close>\<close>

definition set_points_earned :: "int \<Rightarrow> id \<Rightarrow> state \<Rightarrow> state" where
  "set_points_earned n i s =
     s\<lparr>orders := map (\<lambda>ord. if order_id ord = i then ord\<lparr>points_earned := n\<rparr> else ord) (orders s)\<rparr>"

text \<open>\<^verbatim>\<open>UPDATE orders SET stripe_session_id = ? WHERE id = ?\<close>\<close>

definition set_stripe_session_id :: "id \<Rightarrow> id \<Rightarrow> state \<Rightarrow> state" where
  "set_stripe_session_id sid i s =
     s\<lparr>orders := map (\<lambda>ord. if order_id ord = i then ord\<lparr>stripe_session_id := Some sid\<rparr> else ord)
                    (orders s)\<rparr>"

text \<open>The sum of a user's ledger entries.\<close>

definition balanceFor :: "id \<Rightarrow> LedgerEntry list \<Rightarrow> int" where
  "balanceFor i ledger = sum_list (map amount (filter (\<lambda>e. user_id e = i) ledger))"

subsection \<open>Sessions\<close>

text \<open>
  \<^verbatim>\<open>getSession\<close>: the bearer token of the request, if any, is looked up in the store; an
  expired session is deleted. \<open>now\<close> is \<^verbatim>\<open>Date.now()\<close>.
\<close>

definition getSession :: "nat \<Rightarrow> id option \<Rightarrow> state \<Rightarrow> Session option \<times> state" where
  "getSession now bearer s =
     (case bearer of
        None \<Rightarrow> (None, s)
      | Some token \<Rightarrow>
          (case SESSIONS s token of
             None \<Rightarrow> (None, s)
           | Some session \<Rightarrow>
               if now > expiresAt session
               then (None, s\<lparr>SESSIONS := (SESSIONS s)(token := None)\<rparr>)
               else (Some session, s)))"

definition week_ms :: nat where
  "week_ms = 7 * 24 * 60 * 60 * 1000"

text \<open>ASCII letters only; the source's \<^verbatim>\<open>toLowerCase\<close> also maps other scripts.\<close>

definition toLowerCase :: "string \<Rightarrow> string" where
  "toLowerCase = map (\<lambda>c. let n = (of_char c :: nat)
                          in if 65 \<le> n \<and> n \<le> 90 then char_of (n + 32) else c)"

subsection \<open>Handlers\<close>

text \<open>
  Every handler takes the state and returns its response with the new state. The password
  hash (SHA-256 in the source) is a parameter \<open>hashPassword\<close> of the handlers that use it.
\<close>

record AuthResponse =
  resp_token :: id
  resp_user_id :: id
  resp_points :: int
  resp_tier :: string

text \<open>\<^verbatim>\<open>name || null\<close>\<close>

definition or_null :: "string option \<Rightarrow> string option" where
  "or_null n = (case n of None \<Rightarrow> None | Some x \<Rightarrow> if x = [] then None else Some x)"

text \<open>\<^verbatim>\<open>POST /api/auth/register\<close>\<close>

definition register ::
  "(string \<Rightarrow> string) \<Rightarrow> nat \<Rightarrow> string \<Rightarrow> string \<Rightarrow> string option \<Rightarrow> state
     \<Rightarrow> (error + AuthResponse) \<times> state" where
  "register hashPassword now email_in password name_in s =
     (if email_in = [] \<or> password = [] then (Inl BadRequest, s)
      else if length password < 8 then (Inl BadRequest, s)
      else
        case select_user_by_email (toLowerCase email_in) s of
          Some existing \<Rightarrow> (Inl BadRequest, s)
        | None \<Rightarrow>
            let (newId, s1) = generateId s;
                passwordHash = hashPassword password;
                (verificationToken, s2) = generateId s1;
                s3 = s2\<lparr>users := users s2 @
                       [\<lparr>uid = newId, email = toLowerCase email_in, user_name = or_null name_in,
                         password_hash = passwordHash, points_balance = SIGNUP_BONUS,
                         tier = ''MOON'', verified_at = False\<rparr>]\<rparr>;
                s4 = insert_transaction newId SIGNUP_BONUS EARN SIGNUP None s3;
                s5 = set_verified newId s4;
                (sessionToken, s6) = generateId s5;
                session = \<lparr>userId = newId, session_email = toLowerCase email_in,
                           session_name = or_null name_in, session_tier = ''MOON'',
                           createdAt = now, expiresAt = now + week_ms\<rparr>;
                s7 = s6\<lparr>SESSIONS := (SESSIONS s6)(sessionToken \<mapsto> session)\<rparr>
            in (Inr \<lparr>resp_token = sessionToken, resp_user_id = newId,
                      resp_points = SIGNUP_BONUS, resp_tier = ''MOON''\<rparr>, s7))"

text \<open>\<^verbatim>\<open>POST /api/auth/login\<close>\<close>

definition login ::
  "(string \<Rightarrow> string) \<Rightarrow> nat \<Rightarrow> string \<Rightarrow> string \<Rightarrow> state \<Rightarrow> (error + AuthResponse) \<times> state" where
  "login hashPassword now email_in password s =
     (if email_in = [] \<or> password = [] then (Inl BadRequest, s)
      else
        case select_user_by_email (toLowerCase email_in) s of
          None \<Rightarrow> (Inl InvalidCredentials, s)
        | Some user \<Rightarrow>
            if hashPassword password \<noteq> password_hash user then (Inl InvalidCredentials, s)
            else if \<not> verified_at user then (Inl InvalidCredentials, s)
            else
              let (sessionToken, s1) = generateId s;
                  session = \<lparr>userId = uid user, session_email = email user,
                             session_name = user_name user, session_tier = tier user,
                             createdAt = now, expiresAt = now + week_ms\<rparr>;
                  s2 = s1\<lparr>SESSIONS := (SESSIONS s1)(sessionToken \<mapsto> session)\<rparr>
              in (Inr \<lparr>resp_token = sessionToken, resp_user_id = uid user,
                        resp_points = points_balance user, resp_tier = tier user\<rparr>, s2))"

text \<open>\<^verbatim>\<open>POST /api/auth/logout\<close>\<close>

definition logout :: "id option \<Rightarrow> state \<Rightarrow> state" where
  "logout bearer s =
     (case bearer of None \<Rightarrow> s | Some token \<Rightarrow> s\<lparr>SESSIONS := (SESSIONS s)(token := None)\<rparr>)"

text \<open>
  \<^verbatim>\<open>GET /api/points\<close>: the balance of the row and the name of the tier computed from it.
  The other \<^verbatim>\<open>GET\<close> handlers with a session change the state in the same way, through
  \<^const>\<open>getSession\<close> only.
\<close>

definition get_points :: "nat \<Rightarrow> id option \<Rightarrow> state \<Rightarrow> (error + int \<times> string) \<times> state" where
  "get_points now bearer s =
     (case getSession now bearer s of
        (None, s1) \<Rightarrow> (Inl NotLoggedIn, s1)
      | (Some session, s1) \<Rightarrow>
          (case select_user (userId session) s1 of
             None \<Rightarrow> (Inl UserNotFound, s1)
           | Some user \<Rightarrow>
               (Inr (points_balance user, name (getTier (Fin (points_balance user)))), s1)))"

text \<open>\<^verbatim>\<open>POST /api/points/calculate-discount\<close>\<close>

definition calculate_discount_handler ::
  "nat \<Rightarrow> id option \<Rightarrow> int \<Rightarrow> int option \<Rightarrow> state \<Rightarrow> (error + DiscountResponse) \<times> state" where
  "calculate_discount_handler now bearer cartTotalCents pointsToUse_req s =
     (case getSession now bearer s of
        (None, s1) \<Rightarrow> (Inl NotLoggedIn, s1)
      | (Some session, s1) \<Rightarrow>
          (case select_user (userId session) s1 of
             None \<Rightarrow> (Inl UserNotFound, s1)
           | Some user \<Rightarrow>
               (calculate_discount cartTotalCents pointsToUse_req (points_balance user), s1)))"

text \<open>
  \<^verbatim>\<open>Math.round(item.price * 100) * item.quantity\<close>, and the sum over the cart. The price
  of the request is a decimal, read as its double; the product with 100 is rounded to a
  double, and \<^verbatim>\<open>Math.round\<close> takes the nearest integer, a half going up.
\<close>

definition itemTotalCents :: "CartItem \<Rightarrow> int" where
  "itemTotalCents item = \<lfloor>double (double (price item) * 100) + 1 / 2\<rfloor> * quantity item"

definition cartSubtotalCents :: "CartItem list \<Rightarrow> int" where
  "cartSubtotalCents items = sum_list (map itemTotalCents items)"

text \<open>
  The redemption of \<^verbatim>\<open>create-session\<close> (lines 484 to 512): the pair
  \<^verbatim>\<open>(discountCents, actualPointsUsed)\<close>, which stays \<open>(0, 0)\<close> unless the caller has a
  session, asks for a positive number of points, has a user row and meets the minimum order.
\<close>

definition redemption :: "Session option \<Rightarrow> int option \<Rightarrow> int \<Rightarrow> state \<Rightarrow> int \<times> int" where
  "redemption session pointsToRedeem subtotalCents s =
     (case (session, pointsToRedeem) of
        (Some sess, Some r) \<Rightarrow>
          if r \<noteq> 0 \<and> r > 0 then
            (case select_user (userId sess) s of
               None \<Rightarrow> (0, 0)
             | Some user \<Rightarrow>
                 if subtotalCents \<ge> MIN_ORDER_FOR_REDEMPTION * 100 then
                   let md = calculateMaxDiscount subtotalCents (points_balance user);
                       actualPointsUsed = min r (maxPoints md);
                       discountCents =
                         \<lfloor>(of_int actualPointsUsed :: rat) / of_int POINTS_PER_EURO_DISCOUNT\<rfloor> * 100
                   in (discountCents, actualPointsUsed)
                 else (0, 0))
          else (0, 0)
      | _ \<Rightarrow> (0, 0))"

record CheckoutResponse =
  sessionId :: id
  orderId :: id

text \<open>
  \<^verbatim>\<open>POST /api/checkout/create-session\<close>. \<open>stripe_ok\<close> says whether the calls to the
  gateway succeed; when they throw, the order row has already been inserted. The line items
  sent to the gateway do not reach the database and are left out.
\<close>

definition create_session ::
  "nat \<Rightarrow> id option \<Rightarrow> CartItem list \<Rightarrow> int option \<Rightarrow> bool \<Rightarrow> state
     \<Rightarrow> (error + CheckoutResponse) \<times> state" where
  "create_session now bearer items pointsToRedeem stripe_ok s =
     (let (session, s1) = getSession now bearer s
      in if items = [] then (Inl CartEmpty, s1)
         else
           let subtotalCents = cartSubtotalCents items;
               (discountCents, actualPointsUsed) = redemption session pointsToRedeem subtotalCents s1;
               (newOrderId, s2) = generateId s1;
               finalTotalCents = subtotalCents - discountCents;
               s3 = s2\<lparr>orders := orders s2 @
                      [\<lparr>order_id = newOrderId, order_user_id = map_option userId session,
                        stripe_session_id = None, status = pending, subtotal = subtotalCents,
                        discount = discountCents, points_used = actualPointsUsed,
                        points_earned = 0, order_total = finalTotalCents\<rparr>]\<rparr>
           in if \<not> stripe_ok then (Inl CheckoutFailed, s3)
              else
                let (sid, s4) = generateId s3;
                    s5 = s4\<lparr>stripe_sessions := stripe_sessions s4 @
                           [(sid, \<lparr>md_orderId = Some newOrderId,
                                   md_userId = map_option userId session,
                                   md_pointsUsed = Some actualPointsUsed,
                                   md_discountCents = Some discountCents\<rparr>)]\<rparr>;
                    s6 = set_stripe_session_id sid newOrderId s5
                in (Inr \<lparr>sessionId = sid, orderId = newOrderId\<rparr>, s6))"

text \<open>
  The settlement of \<^verbatim>\<open>/api/webhooks/stripe\<close> (lines 620 to 665) for a user id and the
  order row that was read back after the status update.
\<close>

definition settle :: "id \<Rightarrow> id \<Rightarrow> int option \<Rightarrow> Order \<Rightarrow> state \<Rightarrow> state" where
  "settle oid i pointsUsed ord s =
     (let pointsUsedNum = (case pointsUsed of None \<Rightarrow> 0 | Some n \<Rightarrow> n);
          s1 = (if pointsUsedNum > 0
                then insert_transaction i (- pointsUsedNum) SPEND ORDER (Some oid)
                       (add_points (- pointsUsedNum) i s)
                else s)
      in case select_user i s1 of
           None \<Rightarrow> s1
         | Some user \<Rightarrow>
             let tier = getTier (Fin (points_balance user));
                 pointsEarned = calculatePointsEarned (order_total ord) tier;
                 s2 = add_points pointsEarned i s1;
                 s3 = insert_transaction i pointsEarned EARN ORDER (Some oid) s2;
                 s4 = set_points_earned pointsEarned oid s3;
                 newPoints = points_balance user - pointsUsedNum + pointsEarned;
                 newTier = getTier (Fin newPoints)
             in if name newTier \<noteq> User.tier user then set_tier (name newTier) i s4 else s4)"

text \<open>
  \<^verbatim>\<open>POST /api/webhooks/stripe\<close>. The signature header is absent (\<^const>\<open>None\<close>) or
  present, and then verifies or not; \<^verbatim>\<open>constructEvent\<close> throws when it does not.
\<close>

definition stripe_webhook :: "bool option \<Rightarrow> stripe_event \<Rightarrow> state \<Rightarrow> (error + unit) \<times> state" where
  "stripe_webhook signature event s =
     (case signature of
        None \<Rightarrow> (Inl MissingSignature, s)
      | Some valid \<Rightarrow>
          if \<not> valid then (Inl WebhookFailed, s)
          else
            (case event of
               OtherEvent \<Rightarrow> (Inr (), s)
             | CheckoutSessionCompleted md \<Rightarrow>
                 (case md_orderId md of
                    None \<Rightarrow> (Inr (), s)
                  | Some oid \<Rightarrow>
                      let s1 = set_paid oid s
                      in (case md_userId md of
                            None \<Rightarrow> (Inr (), s1)
                          | Some i \<Rightarrow>
                              (case select_order oid s1 of
                                 None \<Rightarrow> (Inr (), s1)
                               | Some ord \<Rightarrow> (Inr (), settle oid i (md_pointsUsed md) ord s1))))))"

datatype newsletter_response = AlreadySubscribed | Subscribed | SubscribedWithBonus int

text \<open>\<^verbatim>\<open>POST /api/newsletter/subscribe\<close>\<close>

definition newsletter_subscribe ::
  "nat \<Rightarrow> id option \<Rightarrow> string \<Rightarrow> state \<Rightarrow> (error + newsletter_response) \<times> state" where
  "newsletter_subscribe now bearer email_in s =
     (if email_in = [] \<or> CHR ''@'' \<notin> set email_in then (Inl BadRequest, s)
      else if toLowerCase email_in \<in> set (newsletter_subscribers s) then (Inr AlreadySubscribed, s)
      else
        let (rowId, s1) = generateId s;
            s2 = s1\<lparr>newsletter_subscribers := newsletter_subscribers s1 @ [toLowerCase email_in]\<rparr>;
            (session, s3) = getSession now bearer s2
        in case session of
             None \<Rightarrow> (Inr Subscribed, s3)
           | Some sess \<Rightarrow>
               let s4 = add_points NEWSLETTER_BONUS (userId sess) s3;
                   s5 = insert_transaction (userId sess) NEWSLETTER_BONUS EARN NEWSLETTER None s4
               in (Inr (SubscribedWithBonus NEWSLETTER_BONUS), s5))"

text \<open>\<^verbatim>\<open>PUT /api/auth/update\<close> and \<^verbatim>\<open>PATCH /api/auth/profile\<close>\<close>

definition update_profile :: "nat \<Rightarrow> id option \<Rightarrow> string option \<Rightarrow> state \<Rightarrow> (error + unit) \<times> state" where
  "update_profile now bearer name_in s =
     (case getSession now bearer s of
        (None, s1) \<Rightarrow> (Inl NotLoggedIn, s1)
      | (Some session, s1) \<Rightarrow> (Inr (), set_name (or_null name_in) (userId session) s1))"

text \<open>\<^verbatim>\<open>POST /api/auth/change-password\<close> and \<^verbatim>\<open>POST /api/auth/password\<close>\<close>

definition change_password ::
  "(string \<Rightarrow> string) \<Rightarrow> nat \<Rightarrow> id option \<Rightarrow> string \<Rightarrow> string \<Rightarrow> state \<Rightarrow> (error + unit) \<times> state" where
  "change_password hashPassword now bearer currentPassword newPassword s =
     (case getSession now bearer s of
        (None, s1) \<Rightarrow> (Inl NotLoggedIn, s1)
      | (Some session, s1) \<Rightarrow>
          if currentPassword = [] \<or> newPassword = [] then (Inl BadRequest, s1)
          else if length newPassword < 8 then (Inl BadRequest, s1)
          else
            (case select_user (userId session) s1 of
               None \<Rightarrow> (Inl UserNotFound, s1)
             | Some user \<Rightarrow>
                 if hashPassword currentPassword \<noteq> password_hash user
                 then (Inl InvalidCredentials, s1)
                 else (Inr (), set_password_hash (hashPassword newPassword) (userId session) s1)))"

text \<open>\<^verbatim>\<open>DELETE /api/auth/delete\<close>\<close>

definition delete_account :: "nat \<Rightarrow> id option \<Rightarrow> state \<Rightarrow> (error + unit) \<times> state" where
  "delete_account now bearer s =
     (case getSession now bearer s of
        (None, s1) \<Rightarrow> (Inl NotLoggedIn, s1)
      | (Some session, s1) \<Rightarrow>
          let s2 = s1\<lparr>points_transactions :=
                        filter (\<lambda>e. user_id e \<noteq> userId session) (points_transactions s1)\<rparr>;
              s3 = s2\<lparr>orders := filter (\<lambda>ord. order_user_id ord \<noteq> Some (userId session)) (orders s2)\<rparr>;
              s4 = s3\<lparr>users := filter (\<lambda>u. uid u \<noteq> userId session) (users s3)\<rparr>;
              s5 = logout bearer s4
          in (Inr (), s5))"

subsection \<open>The system: requests in sequence\<close>

text \<open>
  A request of the system. A webhook with a valid signature comes from the gateway: it is
  either the completion of a checkout session that \<^const>\<open>create_session\<close> created (the
  \<open>k\<close>-th one, delivered any number of times) or an event of another type. A webhook whose
  signature is missing (\<^const>\<open>False\<close>) or present but invalid (\<^const>\<open>True\<close>) carries any
  event. The contact form, the product list and the static pages write to none of the
  tables of the state and are not requests here.
\<close>

datatype request =
    Register string string "string option"
  | Login string string
  | Logout "id option"
  | Get "id option"
  | CalculateDiscount "id option" int "int option"
  | CreateSession "id option" "CartItem list" "int option" bool
  | WebhookCompleted nat
  | WebhookOther
  | WebhookUnverified bool stripe_event
  | NewsletterSubscribe "id option" string
  | UpdateProfile "id option" "string option"
  | ChangePassword "id option" string string
  | DeleteAccount "id option"

fun step :: "(string \<Rightarrow> string) \<Rightarrow> nat \<Rightarrow> request \<Rightarrow> state \<Rightarrow> state" where
  "step h now (Register e p n) s = snd (register h now e p n s)"
| "step h now (Login e p) s = snd (login h now e p s)"
| "step h now (Logout b) s = logout b s"
| "step h now (Get b) s = snd (getSession now b s)"
| "step h now (CalculateDiscount b c p) s = snd (calculate_discount_handler now b c p s)"
| "step h now (CreateSession b items p ok) s = snd (create_session now b items p ok s)"
| "step h now (WebhookCompleted k) s =
     (if k < length (stripe_sessions s)
      then snd (stripe_webhook (Some True) (CheckoutSessionCompleted (snd (stripe_sessions s ! k))) s)
      else s)"
| "step h now WebhookOther s = snd (stripe_webhook (Some True) OtherEvent s)"
| "step h now (WebhookUnverified present ev) s =
     snd (stripe_webhook (if present then Some False else None) ev s)"
| "step h now (NewsletterSubscribe b e) s = snd (newsletter_subscribe now b e s)"
| "step h now (UpdateProfile b n) s = snd (update_profile now b n s)"
| "step h now (ChangePassword b c n) s = snd (change_password h now b c n s)"
| "step h now (DeleteAccount b) s = snd (delete_account now b s)"

text \<open>A run: each request with the time at which it arrives.\<close>

fun run :: "(string \<Rightarrow> string) \<Rightarrow> (nat \<times> request) list \<Rightarrow> state \<Rightarrow> state" where
  "run h [] s = s"
| "run h ((now, r) # rs) s = run h rs (step h now r s)"

text \<open>The ledger-sum property of a state: every user row's balance is the sum of its entries.\<close>

definition ledger_sum_ok :: "state \<Rightarrow> bool" where
  "ledger_sum_ok s =
     (\<forall>u \<in> set (users s). points_balance u = balanceFor (uid u) (points_transactions s))"

text \<open>Every identifier in the state was drawn from the supply.\<close>

definition ids_drawn :: "state \<Rightarrow> bool" where
  "ids_drawn s =
     ((\<forall>u \<in> set (users s). uid u < next_id s) \<and>
      (\<forall>e \<in> set (points_transactions s). user_id e < next_id s) \<and>
      (\<forall>ord \<in> set (orders s). order_id ord < next_id s) \<and>
      (\<forall>token sess. SESSIONS s token = Some sess \<longrightarrow> userId sess < next_id s) \<and>
      (\<forall>m \<in> set (stripe_sessions s). \<forall>i. md_userId (snd m) = Some i \<longrightarrow> i < next_id s))"

subsection \<open>Example runs\<close>

text \<open>
  Concrete runs from the empty state, used to evaluate the handlers: a customer registers,
  buys, and the gateway confirms. The password hash of the examples is the identity.
\<close>

definition example_hash :: "string \<Rightarrow> string" where
  "example_hash p = p"

definition example_item :: "rat \<Rightarrow> CartItem" where
  "example_item euros = \<lparr>productId = 1, quantity = 1, price = euros, item_name = ''Set''\<rparr>"

definition example_pending :: state where
  "example_pending =
     run example_hash
       [(0, Register ''ann@example.org'' ''password'' None),
        (1, CreateSession (Some 3) [example_item 100] None True)] init_state"

definition example_paid :: state where
  "example_paid = step example_hash 2 (WebhookCompleted 0) example_pending"

definition example_paid_twice :: state where
  "example_paid_twice = step example_hash 3 (WebhookCompleted 0) example_paid"

definition example_loyal :: state where
  "example_loyal =
     run example_hash
       [(0, Register ''ann@example.org'' ''password'' None),
        (1, CreateSession (Some 3) [example_item 380] None True),
        (2, WebhookCompleted 0)] init_state"

definition example_redeeming :: state where
  "example_redeeming =
     step example_hash 3 (CreateSession (Some 3) [example_item 100] (Some 20) True) example_loyal"

definition example_settled :: state where
  "example_settled = step example_hash 4 (WebhookCompleted 1) example_redeeming"

section \<open>Properties\<close>

subsection \<open>Rounding to doubles\<close>

text \<open>
  \<open>double\<close> is monotone, is the identity on the integers below \<open>2 ^ 53\<close> and on every
  \<open>m * 2 ^ e\<close> with \<open>m\<close> below \<open>2 ^ 53\<close>, and is computed on a given number once its binary
  exponent is known.
\<close>

lemma rne_of_int [simp]: "rne (of_int n) = n"
  by (simp add: rne_def)

lemma rne_bounds: "\<lfloor>q\<rfloor> \<le> rne q" "rne q \<le> \<lfloor>q\<rfloor> + 1"
  by (simp_all add: rne_def Let_def)

lemma rne_mono:
  assumes "q \<le> r"
  shows "rne q \<le> rne r"
proof -
  have fl: "\<lfloor>q\<rfloor> \<le> \<lfloor>r\<rfloor>" using assms by (rule floor_mono)
  show ?thesis
  proof (cases "\<lfloor>q\<rfloor> = \<lfloor>r\<rfloor>")
    case True
    then have "q - of_int \<lfloor>q\<rfloor> \<le> r - of_int \<lfloor>r\<rfloor>" using assms by simp
    then show ?thesis using True by (auto simp: rne_def Let_def)
  next
    case False
    with fl have "\<lfloor>q\<rfloor> + 1 \<le> \<lfloor>r\<rfloor>" by simp
    with rne_bounds(2) [of q] rne_bounds(1) [of r] show ?thesis by linarith
  qed
qed

lemma two_powi_pos [simp]: "0 < (2 :: rat) powi e"
  by (simp add: zero_less_power_int)

lemma expo_bounds:
  assumes "0 < x"
  shows "2 powi expo x \<le> x" and "x < 2 powi (expo x + 1)"
proof -
  show "2 powi expo x \<le> x"
  proof (cases "1 \<le> x")
    case True
    then have p: "0 < \<lfloor>x\<rfloor>" by simp
    have "(2 :: int) ^ nat (bitlen \<lfloor>x\<rfloor> - 1) \<le> \<lfloor>x\<rfloor>" using bitlen_bounds [OF p] by simp
    then have "(of_int ((2 :: int) ^ nat (bitlen \<lfloor>x\<rfloor> - 1)) :: rat) \<le> of_int \<lfloor>x\<rfloor>"
      by (simp only: of_int_le_iff)
    also have "\<dots> \<le> x" by simp
    finally have "(2 :: rat) ^ nat (bitlen \<lfloor>x\<rfloor> - 1) \<le> x" by simp
    moreover have "0 \<le> bitlen \<lfloor>x\<rfloor> - 1" using p by (simp add: bitlen_alt_def)
    ultimately show ?thesis using True by (simp add: expo_def power_int_nonneg_exp)
  next
    case False
    define c where "c = \<lceil>1 / x\<rceil> - 1"
    have "1 < 1 / x" using False assms by simp
    then have "1 < \<lceil>1 / x\<rceil>" by (simp add: less_ceiling_iff)
    then have c: "0 < c" by (simp add: c_def)
    have "c < 2 ^ nat (bitlen c)" using bitlen_bounds [OF c] by simp
    then have "\<lceil>1 / x\<rceil> \<le> 2 ^ nat (bitlen c)" by (simp add: c_def)
    then have "1 / x \<le> of_int ((2 :: int) ^ nat (bitlen c))" by (simp only: ceiling_le_iff)
    then have "1 / x \<le> (2 :: rat) ^ nat (bitlen c)" by simp
    then have "1 \<le> (2 :: rat) ^ nat (bitlen c) * x"
      using assms by (simp add: pos_divide_le_eq)
    then have "1 / (2 :: rat) ^ nat (bitlen c) \<le> x"
      by (simp add: pos_divide_le_eq mult.commute)
    moreover have "(2 :: rat) powi (- bitlen c) = 1 / 2 ^ nat (bitlen c)"
      using bitlen_nonneg [of c] by (simp add: power_int_minus_divide power_int_nonneg_exp)
    ultimately show ?thesis using False by (simp add: expo_def c_def)
  qed
  show "x < 2 powi (expo x + 1)"
  proof (cases "1 \<le> x")
    case True
    then have p: "0 < \<lfloor>x\<rfloor>" by simp
    have b: "0 \<le> bitlen \<lfloor>x\<rfloor>" by (rule bitlen_nonneg)
    have "\<lfloor>x\<rfloor> < 2 ^ nat (bitlen \<lfloor>x\<rfloor>)" using bitlen_bounds [OF p] by simp
    then have "\<lfloor>x\<rfloor> + 1 \<le> 2 ^ nat (bitlen \<lfloor>x\<rfloor>)" by simp
    then have "(of_int (\<lfloor>x\<rfloor> + 1) :: rat) \<le> of_int (2 ^ nat (bitlen \<lfloor>x\<rfloor>))"
      by (simp only: of_int_le_iff)
    moreover have "x < of_int (\<lfloor>x\<rfloor> + 1)" by linarith
    ultimately have "x < (2 :: rat) ^ nat (bitlen \<lfloor>x\<rfloor>)" by simp
    then show ?thesis using True b by (simp add: expo_def power_int_nonneg_exp)
  next
    case False
    define c where "c = \<lceil>1 / x\<rceil> - 1"
    have "1 < 1 / x" using False assms by simp
    then have "1 < \<lceil>1 / x\<rceil>" by (simp add: less_ceiling_iff)
    then have c: "0 < c" by (simp add: c_def)
    then have b: "1 \<le> bitlen c" by (simp add: bitlen_alt_def)
    have le: "(2 :: int) ^ nat (bitlen c - 1) \<le> c" using bitlen_bounds [OF c] by simp
    have "(2 :: rat) ^ nat (bitlen c - 1) = of_int (2 ^ nat (bitlen c - 1))" by simp
    also have "\<dots> \<le> of_int c" using le by (simp only: of_int_le_iff)
    also have "\<dots> < 1 / x" unfolding c_def by linarith
    finally have "(2 :: rat) ^ nat (bitlen c - 1) < 1 / x" .
    then have "(2 :: rat) ^ nat (bitlen c - 1) * x < 1"
      using assms by (simp add: pos_less_divide_eq)
    then have "x < 1 / (2 :: rat) ^ nat (bitlen c - 1)"
      by (simp add: pos_less_divide_eq mult.commute)
    moreover have "(2 :: rat) powi (- bitlen c + 1) = 1 / 2 ^ nat (bitlen c - 1)"
    proof -
      have "- bitlen c + 1 = - (bitlen c - 1)" by simp
      then show ?thesis using b
        by (simp only: power_int_minus_divide) (simp add: power_int_nonneg_exp)
    qed
    ultimately show ?thesis using False by (simp add: expo_def c_def)
  qed
qed

lemma two_powi_less_D:
  assumes "(2 :: rat) powi a < 2 powi b"
  shows "a < b"
proof (rule ccontr)
  assume "\<not> a < b"
  then have "b \<le> a" by simp
  then have "(2 :: rat) powi b \<le> 2 powi a" by (rule power_int_increasing) simp
  with assms show False by simp
qed

lemma expo_unique:
  assumes "0 < x" and "2 powi e \<le> x" and "x < 2 powi (e + 1)"
  shows "expo x = e"
proof (rule antisym)
  have "(2 :: rat) powi expo x < 2 powi (e + 1)"
    using expo_bounds(1) [OF assms(1)] assms(3) by simp
  then have "expo x < e + 1" by (rule two_powi_less_D)
  then show "expo x \<le> e" by simp
  have "(2 :: rat) powi e < 2 powi (expo x + 1)"
    using expo_bounds(2) [OF assms(1)] assms(2) by simp
  then have "e < expo x + 1" by (rule two_powi_less_D)
  then show "e \<le> expo x" by simp
qed

lemma double_0 [simp]: "double 0 = 0"
  by (simp add: double_def)

lemma double_pos:
  assumes "0 < x"
  shows "double x = of_int (rne (x / 2 powi (expo x - 52))) * 2 powi (expo x - 52)"
  using assms by (simp add: double_def Let_def)

lemma double_minus: "double (- x) = - double x"
  by (simp add: double_def Let_def sgn_minus)

lemma mantissa_bounds:
  assumes "0 < x"
  shows "2 ^ 52 \<le> x / 2 powi (expo x - 52)" and "x / 2 powi (expo x - 52) < 2 ^ 53"
proof -
  have u: "(2 :: rat) powi (expo x - 52) = 2 powi expo x / 2 ^ 52"
    by (simp add: power_int_diff)
  have p: "0 < (2 :: rat) powi expo x" by simp
  have "2 ^ 52 * 2 powi expo x \<le> x * 2 ^ 52"
    using expo_bounds(1) [OF assms] by simp
  then show "2 ^ 52 \<le> x / 2 powi (expo x - 52)"
    unfolding u using p by (simp add: pos_le_divide_eq)
  have "(2 :: rat) powi (expo x + 1) = 2 powi expo x * 2"
    by (simp add: power_int_add)
  then have "x < 2 powi expo x * 2" using expo_bounds(2) [OF assms] by simp
  then have "x * 2 ^ 52 < 2 ^ 53 * 2 powi expo x" by simp
  then show "x / 2 powi (expo x - 52) < 2 ^ 53"
    unfolding u using p by (simp add: pos_divide_less_eq)
qed

lemma double_bounds:
  assumes "0 < x"
  shows "2 powi expo x \<le> double x" and "double x \<le> 2 powi (expo x + 1)"
proof -
  let ?u = "(2 :: rat) powi (expo x - 52)"
  let ?m = "rne (x / ?u)"
  have "rne (of_int (2 ^ 52)) \<le> ?m"
    using mantissa_bounds(1) [OF assms] by (intro rne_mono) simp
  then have lo: "2 ^ 52 \<le> ?m" by (simp only: rne_of_int)
  have "?m \<le> rne (of_int (2 ^ 53))"
    using mantissa_bounds(2) [OF assms] by (intro rne_mono) simp
  then have hi: "?m \<le> 2 ^ 53" by (simp only: rne_of_int)
  have e: "(2 :: rat) powi expo x = 2 ^ 52 * ?u" "(2 :: rat) powi (expo x + 1) = 2 ^ 53 * ?u"
    by (simp_all add: power_int_diff power_int_add)
  have "(2 :: rat) ^ 52 \<le> of_int ?m" using lo by (metis of_int_le_iff of_int_numeral of_int_power)
  then show "2 powi expo x \<le> double x"
    unfolding e double_pos [OF assms] by simp
  have "(of_int ?m :: rat) \<le> 2 ^ 53" using hi by (metis of_int_le_iff of_int_numeral of_int_power)
  then show "double x \<le> 2 powi (expo x + 1)"
    unfolding e double_pos [OF assms] by simp
qed

lemma double_pos_pos: "0 < x \<Longrightarrow> 0 < double x"
  using double_bounds(1) [of x] two_powi_pos [of "expo x"] by linarith

lemma double_mono_pos:
  assumes "0 < x" and "x \<le> y"
  shows "double x \<le> double y"
proof -
  have y: "0 < y" using assms by simp
  have "(2 :: rat) powi expo x < 2 powi (expo y + 1)"
    using expo_bounds(1) [OF assms(1)] expo_bounds(2) [OF y] assms(2) by linarith
  then have "expo x < expo y + 1" by (rule two_powi_less_D)
  then consider "expo x = expo y" | "expo x + 1 \<le> expo y" by linarith
  then show ?thesis
  proof cases
    case 1
    have "x / 2 powi (expo y - 52) \<le> y / 2 powi (expo y - 52)"
      using assms(2) by (simp add: divide_right_mono)
    then have "rne (x / 2 powi (expo y - 52)) \<le> rne (y / 2 powi (expo y - 52))"
      by (rule rne_mono)
    then show ?thesis
      unfolding double_pos [OF assms(1)] double_pos [OF y] 1
      by (simp add: mult_right_mono)
  next
    case 2
    have "double x \<le> 2 powi (expo x + 1)" using assms(1) by (rule double_bounds)
    also have "\<dots> \<le> 2 powi expo y" using 2 by (rule power_int_increasing) simp
    also have "\<dots> \<le> double y" using y by (rule double_bounds)
    finally show ?thesis .
  qed
qed

lemma double_mono:
  assumes "x \<le> y"
  shows "double x \<le> double y"
proof -
  consider "0 < x" | "x \<le> 0" "0 \<le> y" | "y < 0" by linarith
  then show ?thesis
  proof cases
    case 1
    then show ?thesis using assms by (rule double_mono_pos)
  next
    case 2
    have "double x \<le> 0"
    proof (cases "x = 0")
      case False
      with 2 have "0 < - x" by simp
      from double_pos_pos [OF this] show ?thesis by (simp add: double_minus)
    qed simp
    moreover have "0 \<le> double y"
    proof (cases "y = 0")
      case False
      with 2 have "0 < y" by simp
      from double_pos_pos [OF this] show ?thesis by simp
    qed simp
    ultimately show ?thesis by simp
  next
    case 3
    then have "0 < - y" "- y \<le> - x" using assms by simp_all
    then have "double (- y) \<le> double (- x)" by (rule double_mono_pos)
    then show ?thesis by (simp add: double_minus)
  qed
qed

lemma double_fix_pos:
  assumes "0 < j" and "j < 2 ^ 53"
  shows "double (of_int j * 2 powi c) = of_int j * 2 powi c"
proof -
  let ?x = "(of_int j :: rat) * 2 powi c"
  have x: "0 < ?x" using assms(1) by simp
  have "(of_int j :: rat) < 2 ^ 53" using assms(2) by (metis of_int_less_iff of_int_numeral of_int_power)
  then have "?x < 2 ^ 53 * 2 powi c" by simp
  also have "\<dots> = 2 powi (53 + c)" by (simp add: power_int_add)
  finally have "(2 :: rat) powi expo ?x < 2 powi (53 + c)"
    using expo_bounds(1) [OF x] by linarith
  then have "expo ?x < 53 + c" by (rule two_powi_less_D)
  then have d: "0 \<le> c - expo ?x + 52" by simp
  define d where "d = nat (c - expo ?x + 52)"
  have cd: "c = int d + (expo ?x - 52)" using d by (simp add: d_def)
  have pc: "(2 :: rat) powi c = 2 ^ d * 2 powi (expo ?x - 52)"
    by (subst cd) (simp add: power_int_add)
  have gen: "of_int j * p / u = of_int (j * 2 ^ d) \<and> of_int j * p = of_int (j * 2 ^ d) * u"
    if "0 < u" and "p = 2 ^ d * u" for p u :: rat
    using that by simp
  have q: "?x / 2 powi (expo ?x - 52) = of_int (j * 2 ^ d)" and
    r: "?x = of_int (j * 2 ^ d) * 2 powi (expo ?x - 52)"
    using gen [OF two_powi_pos pc] by blast+
  show ?thesis
    unfolding double_pos [OF x] q rne_of_int by (rule r [symmetric])
qed

lemma double_of_int:
  assumes "\<bar>j\<bar> < 2 ^ 53"
  shows "double (of_int j) = of_int j"
proof -
  consider "j = 0" | "0 < j" | "j < 0" by linarith
  then show ?thesis
  proof cases
    case 2
    with assms double_fix_pos [of j 0] show ?thesis by simp
  next
    case 3
    with assms double_fix_pos [of "- j" 0] show ?thesis by (simp add: double_minus)
  qed simp
qed

lemma floor_rat_numeral:
  "\<lfloor>(numeral a :: rat) / numeral b\<rfloor> = (numeral a div numeral b :: int)"
  using floor_divide_of_int_eq [of "numeral a" "numeral b", where ?'a = rat] by simp

text \<open>Evaluating \<^const>\<open>double\<close> at a positive number whose exponent is known.\<close>

lemma double_eval:
  assumes "0 < x" and "2 powi e \<le> x" and "x < 2 powi (e + 1)"
  shows "double x = of_int (rne (x / 2 powi (e - 52))) * 2 powi (e - 52)"
  using double_pos [OF assms(1)] expo_unique [OF assms] by simp

lemma double_one [simp]: "double 1 = 1"
  using double_of_int [of 1] by simp

lemma double_five_quarters: "double (5 / 4) = 5 / 4"
  using double_fix_pos [of 5 "- 2"] by simp

lemma double_eleven_tenths: "double (11 / 10) = 2476979795053773 / 2251799813685248"
proof -
  have "double (11 / 10) = of_int (rne ((11 / 10) / 2 powi (0 - 52))) * 2 powi (0 - 52)"
    by (rule double_eval) simp_all
  also have "((11 :: rat) / 10) / 2 powi (0 - 52) = 24769797950537728 / 5"
    by simp
  also have "rne (24769797950537728 / 5) = 4953959590107546"
    by (simp add: rne_def Let_def floor_rat_numeral)
  finally show ?thesis by simp
qed


lemma double_between:
  assumes "of_int a \<le> x" and "x \<le> of_int b * 2 powi c"
    and "\<bar>a\<bar> < 2 ^ 53" and "0 < b" and "b < 2 ^ 53"
  shows "of_int a \<le> double x" and "double x \<le> of_int b * 2 powi c"
proof -
  have "double (of_int a) \<le> double x" using assms(1) by (rule double_mono)
  then show "of_int a \<le> double x" using assms(3) by (simp add: double_of_int)
  have "double x \<le> double (of_int b * 2 powi c)" using assms(2) by (rule double_mono)
  then show "double x \<le> of_int b * 2 powi c" using assms(4,5) by (simp add: double_fix_pos)
qed

text \<open>
  On order totals from 0 up to \<open>2 ^ 46\<close> cents the doubles of \<^verbatim>\<open>calculatePointsEarned\<close>
  give the value of exact arithmetic; for a negative total they need not.
\<close>

lemma basePoints_exact:
  assumes "0 \<le> t" and "t < 2 ^ 46"
  shows "\<lfloor>double (double (double (of_int t) / 100) * of_int EARN_PER_EURO)\<rfloor> = t div 100"
proof -
  define k where "k = t div 100"
  have t: "double (of_int t) = of_int t" using assms by (intro double_of_int) simp
  have "t = 100 * k + t mod 100" by (simp add: k_def)
  moreover have "0 \<le> t mod 100" "t mod 100 < 100" by simp_all
  ultimately have kt: "100 * k \<le> t" "t \<le> 100 * k + 99" by linarith+
  have "0 \<le> k" using assms(1) by (simp add: k_def pos_imp_zdiv_nonneg_iff)
  with kt assms have k: "0 \<le> k" "k < 2 ^ 46" by linarith+
  note kt
  then have "(of_int (100 * k) :: rat) \<le> of_int t" "(of_int t :: rat) \<le> of_int (100 * k + 99)"
    by (simp_all only: of_int_le_iff)
  then have lo: "of_int k \<le> (of_int t :: rat) / 100" and "(of_int t :: rat) / 100 \<le> of_int k + 99 / 100"
    by simp_all
  then have hi: "(of_int t :: rat) / 100 \<le> of_int (128 * k + 127) * 2 powi (- 7)"
    by (simp add: power_int_minus_divide)
  have a: "\<bar>k\<bar> < 2 ^ 53" using k by simp
  have b: "0 < 128 * k + 127" "128 * k + 127 < 2 ^ 53" using k by simp_all
  note e1 = double_between [OF lo hi a b]
  note e2 = double_between [OF e1 a b]
  have "of_int k \<le> double (double (of_int t / 100))" using e2(1) .
  moreover have "double (double (of_int t / 100)) < of_int k + 1"
  proof -
    have "double (double (of_int t / 100)) \<le> of_int (128 * k + 127) * 2 powi (- 7)" using e2(2) .
    also have "\<dots> < of_int k + 1" by (simp add: power_int_minus_divide)
    finally show ?thesis .
  qed
  ultimately have "\<lfloor>double (double (of_int t / 100))\<rfloor> = k" by (simp add: floor_unique)
  then show ?thesis by (simp add: t EARN_PER_EURO_def k_def)
qed


lemma bonus_exact:
  assumes "t \<in> set TIERS" and "0 \<le> k" and "k < 2 ^ 46"
  shows "\<lfloor>double (of_int k * double (bonusMultiplier t))\<rfloor> = \<lfloor>of_int k * bonusMultiplier t\<rfloor>"
proof -
  consider "t = MOON" | "t = ECLIPSE" | "t = NOVA" using assms(1) by (auto simp: TIERS_def)
  then show ?thesis
  proof cases
    case 1
    have "double (of_int k) = of_int k" using assms(2,3) by (intro double_of_int) simp
    then show ?thesis by (simp add: 1 MOON_def)
  next
    case 3
    have b: "bonusMultiplier t = 5 / 4" by (simp add: 3 NOVA_def)
    have d: "double (of_int k * (5 / 4)) = of_int k * (5 / 4)"
    proof (cases "k = 0")
      case False
      with assms(2,3) have j: "0 < 5 * k" "5 * k < 2 ^ 53" by simp_all
      have eq: "(of_int k :: rat) * (5 / 4) = of_int (5 * k) * 2 powi (- 2)"
        by (simp add: power_int_minus_divide)
      show ?thesis unfolding eq using j by (rule double_fix_pos)
    qed simp
    show ?thesis unfolding b double_five_quarters d by (rule refl)
  next
    case 2
    define n where "n = \<lfloor>(of_int k :: rat) * (11 / 10)\<rfloor>"
    let ?y = "(of_int k :: rat) * (2476979795053773 / 2251799813685248)"
    have kq: "(0 :: rat) \<le> of_int k" "(of_int k :: rat) < 2 ^ 46"
      using assms(2,3) by (simp_all add: of_int_less_numeral_power_cancel_iff)
    have n10: "(of_int k :: rat) * (11 / 10) = of_int (11 * k) / of_int 10" by simp
    have nd: "n = (11 * k) div 10" unfolding n_def n10 by (rule floor_divide_of_int_eq)
    have "11 * k = 10 * n + (11 * k) mod 10" by (simp add: nd)
    moreover have "0 \<le> (11 * k) mod 10" "(11 * k) mod 10 < 10" by simp_all
    ultimately have nk: "10 * n \<le> 11 * k" "11 * k \<le> 10 * n + 9" by linarith+
    moreover have "k < 70368744177664" using assms(3) by simp
    ultimately have "0 \<le> n" "n < 140737488355328" using assms(2) by linarith+
    then have n: "0 \<le> n" "n < 2 ^ 47" by simp_all
    have "(of_int (10 * n) :: rat) \<le> of_int (11 * k)" "(of_int (11 * k) :: rat) \<le> of_int (10 * n + 9)"
      using nk by (simp_all only: of_int_le_iff)
    then have ex: "of_int n \<le> (of_int k :: rat) * (11 / 10)"
      "(of_int k :: rat) * (11 / 10) \<le> of_int n + 9 / 10" by simp_all
    have diff: "?y = of_int k * (11 / 10) + of_int k / 11258999068426240" by simp
    have lo: "of_int n \<le> ?y" unfolding diff using ex(1) kq(1) by simp
    have "(of_int k :: rat) / 11258999068426240 \<le> 1 / 160" using kq(2) by simp
    then have "?y \<le> of_int n + 9 / 10 + 1 / 160" unfolding diff using ex(2) by linarith
    then have hi: "?y \<le> of_int (16 * n + 15) * 2 powi (- 4)"
      by (simp add: power_int_minus_divide)
    have a: "\<bar>n\<bar> < 2 ^ 53" using n by simp
    have b: "0 < 16 * n + 15" "16 * n + 15 < 2 ^ 53" using n by simp_all
    note e = double_between [OF lo hi a b]
    have "double ?y < of_int n + 1"
    proof -
      have "double ?y \<le> of_int (16 * n + 15) * 2 powi (- 4)" using e(2) .
      also have "\<dots> < of_int n + 1" by (simp add: power_int_minus_divide)
      finally show ?thesis .
    qed
    with e(1) have "\<lfloor>double ?y\<rfloor> = n" by (simp add: floor_unique)
    then show ?thesis by (simp add: 2 ECLIPSE_def double_eleven_tenths n_def)
  qed
qed

lemma calculatePointsEarned_exact:
  assumes "t \<in> set TIERS" and "0 \<le> c" and "c < 2 ^ 46"
  shows "calculatePointsEarned c t = \<lfloor>of_int (c div 100) * bonusMultiplier t\<rfloor>"
proof -
  have "c = 100 * (c div 100) + c mod 100" by simp
  moreover have "0 \<le> c mod 100" by simp
  moreover have "0 \<le> c div 100" using assms(2) by (simp add: pos_imp_zdiv_nonneg_iff)
  ultimately have k: "0 \<le> c div 100" "c div 100 < 2 ^ 46"
    using assms(3) by linarith+
  show ?thesis
    unfolding calculatePointsEarned_def Let_def basePoints_exact [OF assms(2,3)]
    using assms(1) k by (rule bonus_exact)
qed

lemma calculatePointsEarned_negative:
  "calculatePointsEarned (- 10000) ECLIPSE = - 111"
proof -
  have t: "double (of_int (- 10000)) = of_int (- 10000)" by (intro double_of_int) simp
  have h: "double (- 100) = - 100" using double_of_int [of "- 100"] by simp
  let ?y = "(247697979505377300 :: rat) / 2251799813685248"
  have "double ?y = of_int (rne (?y / 2 powi (6 - 52))) * 2 powi (6 - 52)"
    by (rule double_eval) simp_all
  also have "?y / 2 powi (6 - 52) = 61924494876344325 / 8" by simp
  also have "rne (61924494876344325 / 8) = 7740561859543041"
    by (simp add: rne_def Let_def floor_rat_numeral)
  finally have y: "double ?y = 7740561859543041 / 70368744177664" by simp
  have "double (- ?y) = - (7740561859543041 / 70368744177664)"
    by (simp only: double_minus y)
  moreover have "\<lfloor>- ((7740561859543041 :: rat) / 70368744177664)\<rfloor> = - 111"
    by (rule floor_unique) simp_all
  ultimately have "\<lfloor>double (- ?y)\<rfloor> = - 111" by simp
  then show ?thesis
    using t h
    by (simp add: calculatePointsEarned_def Let_def EARN_PER_EURO_def ECLIPSE_def
          double_eleven_tenths)
qed

text \<open>
  A price of 1.005 euros is the double just below it, the product with 100 is the double
  just below 100.5, and \<^verbatim>\<open>Math.round\<close> gives 100 cents.
\<close>

lemma itemTotalCents_half_cent:
  "itemTotalCents (example_item (201 / 200)) = 100"
proof -
  have "double (201 / 200) = of_int (rne ((201 / 200) / 2 powi (0 - 52))) * 2 powi (0 - 52)"
    by (rule double_eval) simp_all
  also have "((201 :: rat) / 200) / 2 powi (0 - 52) = 113152940637683712 / 25" by simp
  also have "rne (113152940637683712 / 25) = 4526117625507348"
    by (simp add: rne_def Let_def floor_rat_numeral)
  finally have p: "double (201 / 200) = 1131529406376837 / 1125899906842624" by simp
  let ?y = "(28288235159420925 :: rat) / 281474976710656"
  have "double ?y = of_int (rne (?y / 2 powi (6 - 52))) * 2 powi (6 - 52)"
    by (rule double_eval) simp_all
  also have "?y / 2 powi (6 - 52) = 28288235159420925 / 4" by simp
  also have "rne (28288235159420925 / 4) = 7072058789855231"
    by (simp add: rne_def Let_def floor_rat_numeral)
  finally have y: "double ?y = 7072058789855231 / 70368744177664" by simp
  have "\<lfloor>(7072058789855231 :: rat) / 70368744177664 + 1 / 2\<rfloor> = 100"
    by (rule floor_unique) simp_all
  then show ?thesis
    by (simp add: itemTotalCents_def example_item_def p y)
qed

subsection \<open>Arithmetic of the discount\<close>

lemma maxByPercent_div: "maxByPercent c = c div 5"
proof -
  have "(of_int c :: rat) * (of_int MAX_DISCOUNT_PERCENT / 100) = of_int c / of_int 5"
    by (simp add: MAX_DISCOUNT_PERCENT_def)
  then show ?thesis
    unfolding maxByPercent_def by (simp only: floor_divide_of_int_eq)
qed

lemma maxByBalance_div: "maxByBalance b = b div 20 * 100"
  unfolding maxByBalance_def POINTS_PER_EURO_DISCOUNT_def
  using floor_divide_of_int_eq [of b 20, where ?'a = rat] by simp

lemma floor_times20: "\<lfloor>(of_int m :: rat) / 100 * of_int POINTS_PER_EURO_DISCOUNT\<rfloor> = m div 5"
proof -
  have "(of_int m :: rat) / 100 * of_int POINTS_PER_EURO_DISCOUNT = of_int m / of_int 5"
    by (simp add: POINTS_PER_EURO_DISCOUNT_def)
  then show ?thesis by (simp only: floor_divide_of_int_eq)
qed

lemma floor_div20: "\<lfloor>(of_int p :: rat) / of_int POINTS_PER_EURO_DISCOUNT\<rfloor> = p div 20"
  unfolding POINTS_PER_EURO_DISCOUNT_def
  using floor_divide_of_int_eq [of p 20, where ?'a = rat] by simp

lemma calculateMaxDiscount_div:
  "calculateMaxDiscount c b =
     \<lparr>maxPoints = min (c div 5) (b div 20 * 100) div 5,
      maxDiscountCents = min (c div 5) (b div 20 * 100)\<rparr>"
  by (simp only: calculateMaxDiscount_def Let_def floor_times20 maxByPercent_div maxByBalance_div)


lemma calculate_discount_div:
  "calculate_discount c req b =
     (if c < 3000 then Inl MinOrderNotMet
      else Inr \<lparr>pointsAvailable = b,
                maxPointsUsable = min (c div 5) (b div 20 * 100) div 5,
                maxDiscountCents_r = min (c div 5) (b div 20 * 100),
                pointsToUse = min (or_else req (min (c div 5) (b div 20 * 100) div 5))
                                  (min (c div 5) (b div 20 * 100) div 5),
                discountCents = min (or_else req (min (c div 5) (b div 20 * 100) div 5))
                                  (min (c div 5) (b div 20 * 100) div 5) div 20 * 100,
                newTotal = c - min (or_else req (min (c div 5) (b div 20 * 100) div 5))
                                  (min (c div 5) (b div 20 * 100) div 5) div 20 * 100\<rparr>)"
  unfolding calculate_discount_def Let_def floor_div20 calculateMaxDiscount_div
  by (simp add: MIN_ORDER_FOR_REDEMPTION_def)







text \<open>
  Claim C9. In the discount preview a requested \<open>pointsToUse\<close> of 0 is answered exactly as
  an absent field: the answer's \<open>pointsToUse\<close> is \<open>maxPointsUsable\<close>, the maximum that
  \<open>calculateMaxDiscount\<close> returns, not 0.
\<close>

theorem C9_zero_request_is_max:
  "calculate_discount cartTotalCents (Some 0) pointsBalance =
     calculate_discount cartTotalCents None pointsBalance \<and>
   (case calculate_discount cartTotalCents (Some 0) pointsBalance of
      Inl e \<Rightarrow> e = MinOrderNotMet \<and> cartTotalCents < MIN_ORDER_FOR_REDEMPTION * 100
    | Inr r \<Rightarrow> pointsToUse r = maxPointsUsable r \<and>
              maxPointsUsable r = maxPoints (calculateMaxDiscount cartTotalCents pointsBalance))"
  by (simp add: calculate_discount_def or_else_def Let_def)

text \<open>Witness for C9: subtotal 100.00, balance 1000, a request of 0 points is answered with 400.\<close>

theorem C9_zero_request_is_max_witness:
  "calculate_discount 10000 (Some 0) 1000 = calculate_discount 10000 None 1000 \<and>
   (case calculate_discount 10000 (Some 0) 1000 of
      Inl e \<Rightarrow> False
    | Inr r \<Rightarrow> pointsToUse r = 400 \<and> maxPointsUsable r = 400)"
  using C9_zero_request_is_max [of 10000 1000]
  by (simp add: calculate_discount_div or_else_def)


lemma bonusMultiplier_nonneg: "t \<in> set TIERS \<Longrightarrow> 0 \<le> bonusMultiplier t"
  by (auto simp: TIERS_def MOON_def ECLIPSE_def NOVA_def)

text \<open>
  Claim C6, as amended. For every order total from 0 up to \<open>2 ^ 46\<close> cents and every tier
  of the table, the points earned are \<open>floor(floor(orderTotal / 100 * EARN_PER_EURO) *
  bonusMultiplier)\<close> in exact arithmetic with the multipliers 1.0, 1.1 and 1.25, the base
  points being floored before the multiplier is applied, and this is at most
  \<open>floor(orderTotal / 100 * EARN_PER_EURO * bonusMultiplier)\<close>. An order of 10000 in the
  tier with multiplier 1.1 earns 110. The doubles of the source give these exact values on
  this range.
\<close>

theorem C6_points_earned:
  assumes "t \<in> set TIERS" and "0 \<le> orderTotal" and "orderTotal < 2 ^ 46"
  shows "calculatePointsEarned orderTotal t =
           \<lfloor>of_int \<lfloor>(of_int orderTotal :: rat) / 100 * of_int EARN_PER_EURO\<rfloor> * bonusMultiplier t\<rfloor> \<and>
         calculatePointsEarned orderTotal t \<le>
           \<lfloor>(of_int orderTotal :: rat) / 100 * of_int EARN_PER_EURO * bonusMultiplier t\<rfloor> \<and>
         calculatePointsEarned 10000 ECLIPSE = 110"
proof -
  let ?x = "(of_int orderTotal :: rat) / 100 * of_int EARN_PER_EURO"
  have x: "\<lfloor>?x\<rfloor> = orderTotal div 100"
    using floor_divide_of_int_eq [of orderTotal 100, where ?'a = rat]
    by (simp add: EARN_PER_EURO_def)
  have eq: "calculatePointsEarned orderTotal t = \<lfloor>of_int \<lfloor>?x\<rfloor> * bonusMultiplier t\<rfloor>"
    unfolding x using assms by (rule calculatePointsEarned_exact)
  have "of_int \<lfloor>?x\<rfloor> \<le> ?x" by (rule of_int_floor_le)
  then have "of_int \<lfloor>?x\<rfloor> * bonusMultiplier t \<le> ?x * bonusMultiplier t"
    using bonusMultiplier_nonneg [OF assms(1)] by (rule mult_right_mono)
  then have le: "\<lfloor>of_int \<lfloor>?x\<rfloor> * bonusMultiplier t\<rfloor> \<le> \<lfloor>?x * bonusMultiplier t\<rfloor>"
    by (rule floor_mono)
  have "ECLIPSE \<in> set TIERS" by (simp add: TIERS_def)
  then have "calculatePointsEarned 10000 ECLIPSE = \<lfloor>of_int (10000 div 100) * bonusMultiplier ECLIPSE\<rfloor>"
    by (rule calculatePointsEarned_exact) simp_all
  then have ex: "calculatePointsEarned 10000 ECLIPSE = 110"
    by (simp add: ECLIPSE_def)
  from eq le ex show ?thesis by simp
qed

text \<open>Witness for C6: an order of 100.90 in NOVA earns 125, flooring once would give 126.\<close>

theorem C6_points_earned_witness:
  "NOVA \<in> set TIERS \<and> (0 :: int) \<le> 10090 \<and> (10090 :: int) < 2 ^ 46 \<and>
   calculatePointsEarned 10090 NOVA = 125 \<and>
   \<lfloor>(of_int 10090 :: rat) / 100 * of_int EARN_PER_EURO * bonusMultiplier NOVA\<rfloor> = 126"
proof -
  have h: "NOVA \<in> set TIERS" by (simp add: TIERS_def)
  have h2: "(0 :: int) \<le> 10090" by simp
  have h3: "(10090 :: int) < 2 ^ 46" by simp
  have f1: "\<lfloor>(1009 :: rat) / 10\<rfloor> = 100"
    using floor_divide_of_int_eq [of 1009 10, where ?'a = rat] by simp
  have f2: "\<lfloor>(1009 :: rat) / 8\<rfloor> = 126"
    using floor_divide_of_int_eq [of 1009 8, where ?'a = rat] by simp
  show ?thesis
    using h C6_points_earned [OF h h2 h3]
    by (simp add: EARN_PER_EURO_def NOVA_def f1 f2)
qed

text \<open>
  Counterexample to C6 as stated, for every order total. The double of \<open>1.1\<close> lies above
  \<open>1.1\<close>, so for an order total of \<open>- 10000\<close> in ECLIPSE the product \<open>- 100 * 1.1\<close> lies
  below \<open>- 110\<close> and the source returns \<open>- 111\<close>, where the formula gives \<open>- 110\<close>.
\<close>

theorem C6_counterexample:
  "calculatePointsEarned (- 10000) ECLIPSE = - 111 \<and>
   \<lfloor>of_int \<lfloor>(of_int (- 10000) :: rat) / 100 * of_int EARN_PER_EURO\<rfloor> * bonusMultiplier ECLIPSE\<rfloor>
     = - 110"
proof -
  have "\<lfloor>of_int \<lfloor>(of_int (- 10000) :: rat) / 100 * of_int EARN_PER_EURO\<rfloor> * bonusMultiplier ECLIPSE\<rfloor>
          = - 110"
    by (simp add: EARN_PER_EURO_def ECLIPSE_def)
  with calculatePointsEarned_negative show ?thesis by (rule conjI)
qed

lemma tiers_distinct: "MOON \<noteq> ECLIPSE" "MOON \<noteq> NOVA" "ECLIPSE \<noteq> NOVA"
  by (simp_all add: MOON_def ECLIPSE_def NOVA_def)

lemma getTier_cases:
  "getTier (Fin b) = (if 0 \<le> b \<and> b \<le> 499 then MOON
                      else if 500 \<le> b \<and> b \<le> 1499 then ECLIPSE
                      else if 1500 \<le> b then NOVA else MOON)"
  by (simp add: getTier_def TIERS_def in_tier_def MOON_def ECLIPSE_def NOVA_def)

lemma getTier_Infinity: "getTier Infinity = NOVA"
  by (simp add: getTier_def TIERS_def in_tier_def MOON_def ECLIPSE_def NOVA_def)

lemma in_tier_Fin:
  "in_tier (Fin b) MOON = (0 \<le> b \<and> b \<le> 499)"
  "in_tier (Fin b) ECLIPSE = (500 \<le> b \<and> b \<le> 1499)"
  "in_tier (Fin b) NOVA = (1500 \<le> b)"
  by (simp_all add: in_tier_def MOON_def ECLIPSE_def NOVA_def)

lemma exactly_one_tier:
  assumes "0 \<le> b"
  shows "\<exists>!t. t \<in> set TIERS \<and> in_tier (Fin b) t"
proof -
  consider "b \<le> 499" | "500 \<le> b" "b \<le> 1499" | "1500 \<le> b" by linarith
  then show ?thesis
  proof cases
    case 1
    with assms show ?thesis
      by (intro ex1I [of _ MOON]) (auto simp: TIERS_def in_tier_Fin)
  next
    case 2
    then show ?thesis
      by (intro ex1I [of _ ECLIPSE]) (auto simp: TIERS_def in_tier_Fin)
  next
    case 3
    then show ?thesis
      by (intro ex1I [of _ NOVA]) (auto simp: TIERS_def in_tier_Fin)
  qed
qed

lemma getTier_no_match:
  assumes "\<forall>t \<in> set TIERS. \<not> in_tier p t"
  shows "getTier p = MOON"
proof -
  have "find (in_tier p) TIERS = None"
    using assms by (simp add: find_None_iff)
  then show ?thesis by (simp add: getTier_def TIERS_def)
qed

text \<open>
  Claim C7. With the configured table (MOON 0 to 499, ECLIPSE 500 to 1499, NOVA from 1500),
  every balance \<open>b \<ge> 0\<close> lies in the range of exactly one tier, \<open>getTier\<close> maps the lower
  and the upper bound of every tier to that tier, and a number that matches no tier, such as
  a negative balance, is given the first tier, MOON.
\<close>

theorem C7_tier_partition:
  "(\<forall>b\<ge>0. \<exists>!t. t \<in> set TIERS \<and> in_tier (Fin b) t) \<and>
   (\<forall>t \<in> set TIERS. getTier (Fin (tier_min t)) = t \<and> getTier (tier_max t) = t) \<and>
   (\<forall>p. (\<forall>t \<in> set TIERS. \<not> in_tier p t) \<longrightarrow> getTier p = MOON) \<and>
   (\<forall>b<0. getTier (Fin b) = MOON) \<and>
   TIERS = [MOON, ECLIPSE, NOVA]"
proof (intro conjI)
  show "\<forall>b\<ge>0. \<exists>!t. t \<in> set TIERS \<and> in_tier (Fin b) t"
    using exactly_one_tier by blast
  have "getTier (Fin (tier_min MOON)) = MOON" "getTier (tier_max MOON) = MOON"
       "getTier (Fin (tier_min ECLIPSE)) = ECLIPSE" "getTier (tier_max ECLIPSE) = ECLIPSE"
       "getTier (Fin (tier_min NOVA)) = NOVA" "getTier (tier_max NOVA) = NOVA"
    by (simp_all add: getTier_def TIERS_def in_tier_def MOON_def ECLIPSE_def NOVA_def)
  then show "\<forall>t \<in> set TIERS. getTier (Fin (tier_min t)) = t \<and> getTier (tier_max t) = t"
    by (simp add: TIERS_def)
  show "\<forall>p. (\<forall>t \<in> set TIERS. \<not> in_tier p t) \<longrightarrow> getTier p = MOON"
    using getTier_no_match by blast
  show "\<forall>b<0. getTier (Fin b) = MOON"
    by (simp add: getTier_cases)
  show "TIERS = [MOON, ECLIPSE, NOVA]" by (rule TIERS_def)
qed

text \<open>Witness for C7: the balances 499, 500, 1499 and -7.\<close>

theorem C7_tier_partition_witness:
  "(\<exists>!t. t \<in> set TIERS \<and> in_tier (Fin 499) t) \<and>
   ECLIPSE \<in> set TIERS \<and> getTier (Fin 500) = ECLIPSE \<and> getTier (Fin 1499) = ECLIPSE \<and>
   getTier (Fin (- 7)) = MOON"
proof -
  have e: "ECLIPSE \<in> set TIERS" by (simp add: TIERS_def)
  have "\<exists>!t. t \<in> set TIERS \<and> in_tier (Fin 499) t"
    using C7_tier_partition by simp
  moreover have "getTier (Fin (tier_min ECLIPSE)) = ECLIPSE \<and> getTier (tier_max ECLIPSE) = ECLIPSE"
    using C7_tier_partition e by blast
  moreover have "getTier (Fin (- 7)) = MOON"
    using C7_tier_partition by simp
  ultimately show ?thesis
    using e by (simp add: ECLIPSE_def)
qed

subsection \<open>Statements, sessions and sums\<close>

lemma add_points_fields [simp]:
  "users (add_points d i s) =
     map (\<lambda>u. if uid u = i then u\<lparr>points_balance := points_balance u + d\<rparr> else u) (users s)"
  "points_transactions (add_points d i s) = points_transactions s"
  "orders (add_points d i s) = orders s"
  "newsletter_subscribers (add_points d i s) = newsletter_subscribers s"
  "SESSIONS (add_points d i s) = SESSIONS s"
  "stripe_sessions (add_points d i s) = stripe_sessions s"
  "next_id (add_points d i s) = next_id s"
  by (simp_all add: add_points_def)

lemma set_tier_fields [simp]:
  "users (set_tier t i s) = map (\<lambda>u. if uid u = i then u\<lparr>tier := t\<rparr> else u) (users s)"
  "points_transactions (set_tier t i s) = points_transactions s"
  "orders (set_tier t i s) = orders s"
  "newsletter_subscribers (set_tier t i s) = newsletter_subscribers s"
  "SESSIONS (set_tier t i s) = SESSIONS s"
  "stripe_sessions (set_tier t i s) = stripe_sessions s"
  "next_id (set_tier t i s) = next_id s"
  by (simp_all add: set_tier_def)

lemma set_name_fields [simp]:
  "users (set_name n i s) = map (\<lambda>u. if uid u = i then u\<lparr>user_name := n\<rparr> else u) (users s)"
  "points_transactions (set_name n i s) = points_transactions s"
  "orders (set_name n i s) = orders s"
  "newsletter_subscribers (set_name n i s) = newsletter_subscribers s"
  "SESSIONS (set_name n i s) = SESSIONS s"
  "stripe_sessions (set_name n i s) = stripe_sessions s"
  "next_id (set_name n i s) = next_id s"
  by (simp_all add: set_name_def)

lemma set_password_hash_fields [simp]:
  "users (set_password_hash h i s) =
     map (\<lambda>u. if uid u = i then u\<lparr>password_hash := h\<rparr> else u) (users s)"
  "points_transactions (set_password_hash h i s) = points_transactions s"
  "orders (set_password_hash h i s) = orders s"
  "newsletter_subscribers (set_password_hash h i s) = newsletter_subscribers s"
  "SESSIONS (set_password_hash h i s) = SESSIONS s"
  "stripe_sessions (set_password_hash h i s) = stripe_sessions s"
  "next_id (set_password_hash h i s) = next_id s"
  by (simp_all add: set_password_hash_def)

lemma set_verified_fields [simp]:
  "users (set_verified i s) = map (\<lambda>u. if uid u = i then u\<lparr>verified_at := True\<rparr> else u) (users s)"
  "points_transactions (set_verified i s) = points_transactions s"
  "orders (set_verified i s) = orders s"
  "newsletter_subscribers (set_verified i s) = newsletter_subscribers s"
  "SESSIONS (set_verified i s) = SESSIONS s"
  "stripe_sessions (set_verified i s) = stripe_sessions s"
  "next_id (set_verified i s) = next_id s"
  by (simp_all add: set_verified_def)

lemma insert_transaction_fields [simp]:
  "users (insert_transaction i a ty src ref s) = users s"
  "points_transactions (insert_transaction i a ty src ref s) =
     points_transactions s @
       [\<lparr>tx_id = next_id s, user_id = i, amount = a, tx_type = ty,
         source = Some src, reference_id = ref\<rparr>]"
  "orders (insert_transaction i a ty src ref s) = orders s"
  "newsletter_subscribers (insert_transaction i a ty src ref s) = newsletter_subscribers s"
  "SESSIONS (insert_transaction i a ty src ref s) = SESSIONS s"
  "stripe_sessions (insert_transaction i a ty src ref s) = stripe_sessions s"
  "next_id (insert_transaction i a ty src ref s) = Suc (next_id s)"
  by (simp_all add: insert_transaction_def generateId_def)

lemma set_paid_fields [simp]:
  "users (set_paid i s) = users s"
  "points_transactions (set_paid i s) = points_transactions s"
  "orders (set_paid i s) =
     map (\<lambda>ord. if order_id ord = i then ord\<lparr>status := paid\<rparr> else ord) (orders s)"
  "newsletter_subscribers (set_paid i s) = newsletter_subscribers s"
  "SESSIONS (set_paid i s) = SESSIONS s"
  "stripe_sessions (set_paid i s) = stripe_sessions s"
  "next_id (set_paid i s) = next_id s"
  by (simp_all add: set_paid_def)

lemma set_points_earned_fields [simp]:
  "users (set_points_earned n i s) = users s"
  "points_transactions (set_points_earned n i s) = points_transactions s"
  "orders (set_points_earned n i s) =
     map (\<lambda>ord. if order_id ord = i then ord\<lparr>points_earned := n\<rparr> else ord) (orders s)"
  "newsletter_subscribers (set_points_earned n i s) = newsletter_subscribers s"
  "SESSIONS (set_points_earned n i s) = SESSIONS s"
  "stripe_sessions (set_points_earned n i s) = stripe_sessions s"
  "next_id (set_points_earned n i s) = next_id s"
  by (simp_all add: set_points_earned_def)

lemma set_stripe_session_id_fields [simp]:
  "users (set_stripe_session_id sid i s) = users s"
  "points_transactions (set_stripe_session_id sid i s) = points_transactions s"
  "orders (set_stripe_session_id sid i s) =
     map (\<lambda>ord. if order_id ord = i then ord\<lparr>stripe_session_id := Some sid\<rparr> else ord) (orders s)"
  "newsletter_subscribers (set_stripe_session_id sid i s) = newsletter_subscribers s"
  "SESSIONS (set_stripe_session_id sid i s) = SESSIONS s"
  "stripe_sessions (set_stripe_session_id sid i s) = stripe_sessions s"
  "next_id (set_stripe_session_id sid i s) = next_id s"
  by (simp_all add: set_stripe_session_id_def)

lemma logout_fields [simp]:
  "users (logout b s) = users s"
  "points_transactions (logout b s) = points_transactions s"
  "orders (logout b s) = orders s"
  "newsletter_subscribers (logout b s) = newsletter_subscribers s"
  "stripe_sessions (logout b s) = stripe_sessions s"
  "next_id (logout b s) = next_id s"
  by (simp_all add: logout_def split: option.splits)

lemma logout_SESSIONS:
  "SESSIONS (logout b s) t = None \<or> SESSIONS (logout b s) t = SESSIONS s t"
  by (simp add: logout_def split: option.splits)

lemma getSession_fields [simp]:
  "users (snd (getSession now b s)) = users s"
  "points_transactions (snd (getSession now b s)) = points_transactions s"
  "orders (snd (getSession now b s)) = orders s"
  "newsletter_subscribers (snd (getSession now b s)) = newsletter_subscribers s"
  "stripe_sessions (snd (getSession now b s)) = stripe_sessions s"
  "next_id (snd (getSession now b s)) = next_id s"
  by (simp_all add: getSession_def split: option.splits)

lemma getSession_SESSIONS:
  "SESSIONS (snd (getSession now b s)) t = None \<or>
   SESSIONS (snd (getSession now b s)) t = SESSIONS s t"
  by (simp add: getSession_def split: option.splits)

lemma getSession_Some:
  assumes "fst (getSession now b s) = Some sess"
  shows "\<exists>t. b = Some t \<and> SESSIONS s t = Some sess \<and> now \<le> expiresAt sess \<and>
             snd (getSession now b s) = s"
  using assms by (auto simp: getSession_def split: option.splits if_splits)

subsection \<open>Sums over the ledger\<close>

lemma balanceFor_append [simp]:
  "balanceFor i (l @ [e]) = balanceFor i l + (if user_id e = i then amount e else 0)"
  by (simp add: balanceFor_def)

lemma balanceFor_Nil [simp]: "balanceFor i [] = 0"
  by (simp add: balanceFor_def)

lemma balanceFor_none:
  assumes "\<forall>e \<in> set l. user_id e \<noteq> i"
  shows "balanceFor i l = 0"
proof -
  have "filter (\<lambda>e. user_id e = i) l = []"
    using assms by (simp add: filter_empty_conv)
  then show ?thesis by (simp add: balanceFor_def)
qed

lemma balanceFor_filter_other:
  assumes "i \<noteq> j"
  shows "balanceFor i (filter (\<lambda>e. user_id e \<noteq> j) l) = balanceFor i l"
proof -
  have "filter (\<lambda>e. user_id e = i) (filter (\<lambda>e. user_id e \<noteq> j) l) = filter (\<lambda>e. user_id e = i) l"
    using assms by (auto intro: filter_cong)
  then show ?thesis by (simp add: balanceFor_def)
qed

subsection \<open>The ledger-sum property under the statements\<close>

lemma ledger_sum_ok_cong:
  "users s' = users s \<Longrightarrow> points_transactions s' = points_transactions s \<Longrightarrow>
   ledger_sum_ok s' = ledger_sum_ok s"
  by (simp add: ledger_sum_ok_def)

lemma ledger_sum_ok_map:
  assumes "\<And>u. uid (f u) = uid u" and "\<And>u. points_balance (f u) = points_balance u"
  shows "ledger_sum_ok (s\<lparr>users := map f (users s)\<rparr>) = ledger_sum_ok s"
  by (simp add: ledger_sum_ok_def assms)

lemma ledger_sum_ok_credit_gen:
  assumes "users s' = map f (users s)"
    and "points_transactions s' = points_transactions s @ [e]"
    and "\<And>u. uid (f u) = uid u"
    and "\<And>u. points_balance (f u) = points_balance u + (if user_id e = uid u then amount e else 0)"
  shows "ledger_sum_ok s' = ledger_sum_ok s"
  by (simp add: ledger_sum_ok_def assms)

lemma ledger_sum_ok_credit [simp]:
  "ledger_sum_ok (insert_transaction i d ty src ref (add_points d i s)) = ledger_sum_ok s"
  by (rule ledger_sum_ok_credit_gen
        [where f = "\<lambda>u. if uid u = i then u\<lparr>points_balance := points_balance u + d\<rparr> else u"
           and e = "\<lparr>tx_id = next_id s, user_id = i, amount = d, tx_type = ty,
                     source = Some src, reference_id = ref\<rparr>"])
     auto

lemma ledger_sum_ok_set_tier [simp]: "ledger_sum_ok (set_tier t i s) = ledger_sum_ok s"
  unfolding set_tier_def by (rule ledger_sum_ok_map) simp_all

lemma ledger_sum_ok_set_name [simp]: "ledger_sum_ok (set_name n i s) = ledger_sum_ok s"
  unfolding set_name_def by (rule ledger_sum_ok_map) simp_all

lemma ledger_sum_ok_set_password_hash [simp]:
  "ledger_sum_ok (set_password_hash h i s) = ledger_sum_ok s"
  unfolding set_password_hash_def by (rule ledger_sum_ok_map) simp_all

lemma ledger_sum_ok_set_verified [simp]: "ledger_sum_ok (set_verified i s) = ledger_sum_ok s"
  unfolding set_verified_def by (rule ledger_sum_ok_map) simp_all

lemma ledger_sum_ok_orders [simp]:
  "ledger_sum_ok (set_paid i s) = ledger_sum_ok s"
  "ledger_sum_ok (set_points_earned n i s) = ledger_sum_ok s"
  "ledger_sum_ok (set_stripe_session_id sid i s) = ledger_sum_ok s"
  by (simp_all add: ledger_sum_ok_def)

lemma ledger_sum_ok_updates [simp]:
  "ledger_sum_ok (s\<lparr>orders := a\<rparr>) = ledger_sum_ok s"
  "ledger_sum_ok (s\<lparr>newsletter_subscribers := b\<rparr>) = ledger_sum_ok s"
  "ledger_sum_ok (s\<lparr>SESSIONS := c\<rparr>) = ledger_sum_ok s"
  "ledger_sum_ok (s\<lparr>stripe_sessions := d\<rparr>) = ledger_sum_ok s"
  "ledger_sum_ok (s\<lparr>next_id := e\<rparr>) = ledger_sum_ok s"
  by (simp_all add: ledger_sum_ok_def)

lemma ledger_sum_ok_getSession [simp]:
  "ledger_sum_ok (snd (getSession now b s)) = ledger_sum_ok s"
  by (simp add: ledger_sum_ok_def)

lemma ledger_sum_ok_logout [simp]: "ledger_sum_ok (logout b s) = ledger_sum_ok s"
  by (simp add: ledger_sum_ok_def)

lemma ledger_sum_ok_settle: "ledger_sum_ok (settle oid i p ord s) = ledger_sum_ok s"
  by (simp add: settle_def Let_def split: option.splits)

lemma ledger_sum_ok_stripe_webhook:
  "ledger_sum_ok (snd (stripe_webhook sig ev s)) = ledger_sum_ok s"
  by (simp add: stripe_webhook_def Let_def ledger_sum_ok_settle
           split: option.splits stripe_event.splits)

lemma ledger_sum_ok_login: "ledger_sum_ok (snd (login h now e p s)) = ledger_sum_ok s"
  by (simp add: login_def Let_def generateId_def split: option.splits)

lemma ledger_sum_ok_calculate_discount_handler:
  "ledger_sum_ok (snd (calculate_discount_handler now b c p s)) = ledger_sum_ok s"
proof -
  have "snd (calculate_discount_handler now b c p s) = snd (getSession now b s)"
    by (simp add: calculate_discount_handler_def split: prod.splits option.splits)
  then show ?thesis by simp
qed

lemma ledger_sum_ok_create_session:
  "ledger_sum_ok (snd (create_session now b items p ok s)) = ledger_sum_ok s"
proof -
  obtain sess s1 where g: "getSession now b s = (sess, s1)" by (cases "getSession now b s")
  then have "ledger_sum_ok s1 = ledger_sum_ok s"
    using ledger_sum_ok_getSession [of now b s] by simp
  then show ?thesis
    by (simp add: create_session_def g Let_def generateId_def split: prod.splits)
qed

lemma ledger_sum_ok_newsletter_subscribe:
  "ledger_sum_ok (snd (newsletter_subscribe now b e s)) = ledger_sum_ok s"
proof -
  let ?s2 = "s\<lparr>next_id := Suc (next_id s),
               newsletter_subscribers := newsletter_subscribers s @ [toLowerCase e]\<rparr>"
  obtain sess s3 where g: "getSession now b ?s2 = (sess, s3)" by (cases "getSession now b ?s2")
  then have "ledger_sum_ok s3 = ledger_sum_ok ?s2"
    using ledger_sum_ok_getSession [of now b ?s2] by simp
  then show ?thesis
    by (simp add: newsletter_subscribe_def g Let_def generateId_def split: option.splits)
qed

lemma ledger_sum_ok_update_profile:
  "ledger_sum_ok (snd (update_profile now b n s)) = ledger_sum_ok s"
proof -
  obtain sess s1 where g: "getSession now b s = (sess, s1)" by (cases "getSession now b s")
  then have "ledger_sum_ok s1 = ledger_sum_ok s"
    using ledger_sum_ok_getSession [of now b s] by simp
  then show ?thesis
    by (simp add: update_profile_def g split: option.splits)
qed

lemma ledger_sum_ok_change_password:
  "ledger_sum_ok (snd (change_password h now b c n s)) = ledger_sum_ok s"
proof -
  obtain sess s1 where g: "getSession now b s = (sess, s1)" by (cases "getSession now b s")
  then have "ledger_sum_ok s1 = ledger_sum_ok s"
    using ledger_sum_ok_getSession [of now b s] by simp
  then show ?thesis
    by (simp add: change_password_def g split: option.splits)
qed

lemma ledger_sum_ok_delete_account:
  assumes "ledger_sum_ok s"
  shows "ledger_sum_ok (snd (delete_account now b s))"
proof -
  obtain sess s1 where g: "getSession now b s = (sess, s1)" by (cases "getSession now b s")
  then have s1: "users s1 = users s" "points_transactions s1 = points_transactions s"
    using getSession_fields(1,2) [of now b s] by simp_all
  show ?thesis
  proof (cases sess)
    case None
    then show ?thesis using assms s1 by (simp add: delete_account_def g ledger_sum_ok_def)
  next
    case (Some x)
    then show ?thesis using assms s1
      by (auto simp: delete_account_def g Let_def ledger_sum_ok_def balanceFor_filter_other)
  qed
qed

lemma ledger_sum_ok_register:
  assumes "ledger_sum_ok s" and "ids_drawn s"
  shows "ledger_sum_ok (snd (register h now e p n s))"
proof -
  have fresh_l: "\<forall>x \<in> set (points_transactions s). user_id x \<noteq> next_id s"
    using assms(2) by (auto simp: ids_drawn_def)
  have fresh_u: "\<forall>u \<in> set (users s). uid u \<noteq> next_id s"
    using assms(2) by (auto simp: ids_drawn_def)
  have zero: "balanceFor (next_id s) (points_transactions s) = 0"
    using fresh_l by (rule balanceFor_none)
  show ?thesis
    using assms(1) fresh_u zero
    by (auto simp: register_def Let_def generateId_def ledger_sum_ok_def SIGNUP_BONUS_def
             split: option.splits)
qed


subsection \<open>Identifiers come from the supply\<close>

lemma ids_drawn_users_map:
  assumes "ids_drawn s" and "\<And>u. uid (f u) = uid u"
  shows "ids_drawn (s\<lparr>users := map f (users s)\<rparr>)"
  using assms by (simp add: ids_drawn_def)

lemma ids_drawn_orders_map:
  assumes "ids_drawn s" and "\<And>ord. order_id (f ord) = order_id ord"
  shows "ids_drawn (s\<lparr>orders := map f (orders s)\<rparr>)"
  using assms by (simp add: ids_drawn_def)

lemma ids_drawn_add_points: "ids_drawn s \<Longrightarrow> ids_drawn (add_points d i s)"
  unfolding add_points_def by (rule ids_drawn_users_map) simp_all

lemma ids_drawn_set_tier: "ids_drawn s \<Longrightarrow> ids_drawn (set_tier t i s)"
  unfolding set_tier_def by (rule ids_drawn_users_map) simp_all

lemma ids_drawn_set_name: "ids_drawn s \<Longrightarrow> ids_drawn (set_name n i s)"
  unfolding set_name_def by (rule ids_drawn_users_map) simp_all

lemma ids_drawn_set_password_hash: "ids_drawn s \<Longrightarrow> ids_drawn (set_password_hash h i s)"
  unfolding set_password_hash_def by (rule ids_drawn_users_map) simp_all

lemma ids_drawn_set_verified: "ids_drawn s \<Longrightarrow> ids_drawn (set_verified i s)"
  unfolding set_verified_def by (rule ids_drawn_users_map) simp_all

lemma ids_drawn_set_paid: "ids_drawn s \<Longrightarrow> ids_drawn (set_paid i s)"
  unfolding set_paid_def by (rule ids_drawn_orders_map) simp_all

lemma ids_drawn_set_points_earned: "ids_drawn s \<Longrightarrow> ids_drawn (set_points_earned n i s)"
  unfolding set_points_earned_def by (rule ids_drawn_orders_map) simp_all

lemma ids_drawn_set_stripe_session_id: "ids_drawn s \<Longrightarrow> ids_drawn (set_stripe_session_id sid i s)"
  unfolding set_stripe_session_id_def by (rule ids_drawn_orders_map) simp_all

lemma ids_drawn_insert_transaction:
  assumes "ids_drawn s" and "i < next_id s"
  shows "ids_drawn (insert_transaction i a ty src ref s)"
  using assms by (auto simp: ids_drawn_def less_Suc_eq)

lemma ids_drawn_generateId: "ids_drawn s \<Longrightarrow> ids_drawn (s\<lparr>next_id := Suc (next_id s)\<rparr>)"
  by (auto simp: ids_drawn_def less_Suc_eq)

lemma ids_drawn_sessions_less:
  assumes "ids_drawn s" and "\<And>t. c t = None \<or> c t = SESSIONS s t"
  shows "ids_drawn (s\<lparr>SESSIONS := c\<rparr>)"
  unfolding ids_drawn_def
proof (intro conjI allI impI)
  fix token sess
  assume "SESSIONS (s\<lparr>SESSIONS := c\<rparr>) token = Some sess"
  then have "SESSIONS s token = Some sess" using assms(2) [of token] by auto
  then show "userId sess < next_id (s\<lparr>SESSIONS := c\<rparr>)"
    using assms(1) by (auto simp: ids_drawn_def)
qed (use assms(1) in \<open>auto simp: ids_drawn_def\<close>)

lemma ids_drawn_session_put:
  assumes "ids_drawn s" and "userId sess < next_id s"
  shows "ids_drawn (s\<lparr>SESSIONS := (SESSIONS s)(t \<mapsto> sess)\<rparr>)"
  using assms by (auto simp: ids_drawn_def)

lemma ids_drawn_session_del:
  "ids_drawn s \<Longrightarrow> ids_drawn (s\<lparr>SESSIONS := (SESSIONS s)(t := None)\<rparr>)"
  by (rule ids_drawn_sessions_less) auto

lemma ids_drawn_new_session:
  assumes "ids_drawn s" and "userId sess < next_id s"
  shows "ids_drawn (s\<lparr>next_id := Suc (next_id s), SESSIONS := (SESSIONS s)(t \<mapsto> sess)\<rparr>)"
  using assms by (auto simp: ids_drawn_def less_Suc_eq)

lemma ids_drawn_getSession: "ids_drawn s \<Longrightarrow> ids_drawn (snd (getSession now b s))"
  by (auto simp: getSession_def intro: ids_drawn_session_del split: option.splits)

lemma ids_drawn_logout: "ids_drawn s \<Longrightarrow> ids_drawn (logout b s)"
  by (auto simp: logout_def intro: ids_drawn_session_del split: option.splits)

lemma ids_drawn_session:
  "ids_drawn s \<Longrightarrow> SESSIONS s t = Some sess \<Longrightarrow> userId sess < next_id s"
  by (auto simp: ids_drawn_def)

lemma ids_drawn_getSession_Some:
  assumes "ids_drawn s" and "getSession now b s = (Some sess, s1)"
  shows "userId sess < next_id s1 \<and> s1 = s"
proof -
  from assms(2) have "fst (getSession now b s) = Some sess" by simp
  from getSession_Some [OF this] assms show ?thesis
    by (auto dest: ids_drawn_session)
qed

lemma ids_drawn_settle:
  assumes "ids_drawn s" and "i < next_id s"
  shows "ids_drawn (settle oid i p ord s)"
proof -
  define n where "n = (case p of None \<Rightarrow> 0 | Some x \<Rightarrow> x)"
  define s1 where "s1 = (if n > 0
                then insert_transaction i (- n) SPEND ORDER (Some oid) (add_points (- n) i s)
                else s)"
  have s1: "ids_drawn s1" "i < next_id s1"
    using assms by (auto simp: s1_def intro!: ids_drawn_insert_transaction ids_drawn_add_points)
  have step: "ids_drawn (set_points_earned e oid (insert_transaction i e EARN ORDER (Some oid) (add_points e i s1)))"
    for e
    using s1 by (intro ids_drawn_set_points_earned ids_drawn_insert_transaction ids_drawn_add_points) simp_all
  show ?thesis
    unfolding settle_def Let_def n_def [symmetric] s1_def [symmetric]
    using s1(1) step by (auto split: option.splits intro: ids_drawn_set_tier)
qed

lemma ids_drawn_stripe_webhook_own:
  assumes "ids_drawn s" and "m \<in> set (stripe_sessions s)"
  shows "ids_drawn (snd (stripe_webhook sig (CheckoutSessionCompleted (snd m)) s))"
proof -
  have u: "i < next_id s" if "md_userId (snd m) = Some i" for i
    using assms that by (auto simp: ids_drawn_def)
  show ?thesis
    using assms(1) u
    by (auto simp: stripe_webhook_def Let_def split: option.splits
             intro!: ids_drawn_settle ids_drawn_set_paid)
qed

lemma ids_drawn_stripe_webhook_other:
  "ids_drawn s \<Longrightarrow> ids_drawn (snd (stripe_webhook sig OtherEvent s))"
  by (simp add: stripe_webhook_def split: option.splits)

lemma stripe_webhook_unverified:
  "sig \<noteq> Some True \<Longrightarrow> snd (stripe_webhook sig ev s) = s"
  by (auto simp: stripe_webhook_def split: option.splits)

lemma ids_drawn_login: "ids_drawn s \<Longrightarrow> ids_drawn (snd (login h now e p s))"
proof -
  assume a: "ids_drawn s"
  have "uid u < next_id s" if "select_user_by_email x s = Some u" for x u
  proof -
    from that have "u \<in> set (users s)"
      by (auto simp: select_user_by_email_def find_Some_iff)
    with a show ?thesis by (auto simp: ids_drawn_def)
  qed
  with a show ?thesis
    by (auto simp: login_def Let_def generateId_def split: option.splits
             intro!: ids_drawn_new_session)
qed


lemma ids_drawn_register: "ids_drawn s \<Longrightarrow> ids_drawn (snd (register h now e p n s))"
  by (auto simp: register_def Let_def generateId_def ids_drawn_def less_Suc_eq
           split: option.splits)

lemma ids_drawn_calculate_discount_handler:
  "ids_drawn s \<Longrightarrow> ids_drawn (snd (calculate_discount_handler now b c p s))"
proof -
  assume a: "ids_drawn s"
  have "snd (calculate_discount_handler now b c p s) = snd (getSession now b s)"
    by (simp add: calculate_discount_handler_def split: prod.splits option.splits)
  with a show ?thesis by (simp add: ids_drawn_getSession)
qed

lemma ids_drawn_new_order:
  assumes "ids_drawn s" and "order_id ord = next_id s"
  shows "ids_drawn (s\<lparr>next_id := Suc (next_id s), orders := orders s @ [ord]\<rparr>)"
  using assms by (auto simp: ids_drawn_def less_Suc_eq)

lemma ids_drawn_new_stripe_session:
  assumes "ids_drawn s" and "\<And>i. md_userId md = Some i \<Longrightarrow> i < next_id s"
  shows "ids_drawn (s\<lparr>next_id := Suc (next_id s), stripe_sessions := stripe_sessions s @ [(sid, md)]\<rparr>)"
  using assms by (auto simp: ids_drawn_def less_Suc_eq)

lemma ids_drawn_create_session:
  assumes "ids_drawn s"
  shows "ids_drawn (snd (create_session now b items p ok s))"
proof -
  obtain sess s1 where g: "getSession now b s = (sess, s1)" by (cases "getSession now b s")
  have s1: "ids_drawn s1" using ids_drawn_getSession [OF assms, of now b] g by simp
  have u: "i < next_id s1" if "map_option userId sess = Some i" for i
    using that ids_drawn_getSession_Some [OF assms, of now b] g by (cases sess) auto
  show ?thesis
  proof (cases "items = []")
    case True
    with s1 show ?thesis by (simp add: create_session_def g)
  next
    case False
    obtain d a where r: "redemption sess p (cartSubtotalCents items) s1 = (d, a)"
      by (cases "redemption sess p (cartSubtotalCents items) s1")
    define ord where "ord = \<lparr>order_id = next_id s1, order_user_id = map_option userId sess,
                        stripe_session_id = None, status = pending, subtotal = cartSubtotalCents items,
                        discount = d, points_used = a,
                        points_earned = 0, order_total = cartSubtotalCents items - d\<rparr>"
    define s3 where "s3 = s1\<lparr>next_id := Suc (next_id s1), orders := orders s1 @ [ord]\<rparr>"
    have s3: "ids_drawn s3" unfolding s3_def
      using s1 by (rule ids_drawn_new_order) (simp add: ord_def)
    define md where "md = \<lparr>md_orderId = Some (next_id s1), md_userId = map_option userId sess,
                           md_pointsUsed = Some a, md_discountCents = Some d\<rparr>"
    have "ids_drawn (s3\<lparr>next_id := Suc (next_id s3),
             stripe_sessions := stripe_sessions s3 @ [(next_id s3, md)]\<rparr>)"
      using s3
    proof (rule ids_drawn_new_stripe_session)
      fix i assume "md_userId md = Some i"
      then have "i < next_id s1" using u by (simp add: md_def)
      then show "i < next_id s3" by (simp add: s3_def)
    qed
    then have s6: "ids_drawn (set_stripe_session_id (next_id s3) (next_id s1)
             (s3\<lparr>next_id := Suc (next_id s3),
                 stripe_sessions := stripe_sessions s3 @ [(next_id s3, md)]\<rparr>))"
      by (rule ids_drawn_set_stripe_session_id)
    have "snd (create_session now b items p ok s) =
            (if \<not> ok then s3
             else set_stripe_session_id (next_id s3) (next_id s1)
                    (s3\<lparr>next_id := Suc (next_id s3),
                        stripe_sessions := stripe_sessions s3 @ [(next_id s3, md)]\<rparr>))"
      using False
      by (simp add: create_session_def g r Let_def generateId_def s3_def ord_def md_def)
    with s3 s6 show ?thesis by simp
  qed
qed

lemma ids_drawn_newsletter_subscribe:
  assumes "ids_drawn s"
  shows "ids_drawn (snd (newsletter_subscribe now b e s))"
proof -
  let ?s2 = "s\<lparr>next_id := Suc (next_id s),
               newsletter_subscribers := newsletter_subscribers s @ [toLowerCase e]\<rparr>"
  have s2: "ids_drawn ?s2" using assms by (auto simp: ids_drawn_def less_Suc_eq)
  obtain sess s3 where g: "getSession now b ?s2 = (sess, s3)" by (cases "getSession now b ?s2")
  have s3: "ids_drawn s3" using ids_drawn_getSession [OF s2, of now b] g by simp
  have "ids_drawn (insert_transaction (userId x) NEWSLETTER_BONUS EARN NEWSLETTER None
          (add_points NEWSLETTER_BONUS (userId x) s3))" if "sess = Some x" for x
  proof (rule ids_drawn_insert_transaction)
    show "ids_drawn (add_points NEWSLETTER_BONUS (userId x) s3)"
      using s3 by (rule ids_drawn_add_points)
    have "userId x < next_id s3"
      using ids_drawn_getSession_Some [OF s2, of now b x s3] g that by blast
    then show "userId x < next_id (add_points NEWSLETTER_BONUS (userId x) s3)"
      by simp
  qed
  with s3 assms show ?thesis
    by (simp add: newsletter_subscribe_def g Let_def generateId_def split: option.splits)
qed

lemma ids_drawn_update_profile:
  assumes "ids_drawn s"
  shows "ids_drawn (snd (update_profile now b n s))"
proof -
  obtain sess s1 where g: "getSession now b s = (sess, s1)" by (cases "getSession now b s")
  have s1: "ids_drawn s1" using ids_drawn_getSession [OF assms, of now b] g by simp
  then show ?thesis
    by (simp add: update_profile_def g ids_drawn_set_name split: option.splits)
qed

lemma ids_drawn_change_password:
  assumes "ids_drawn s"
  shows "ids_drawn (snd (change_password h now b c n s))"
proof -
  obtain sess s1 where g: "getSession now b s = (sess, s1)" by (cases "getSession now b s")
  have s1: "ids_drawn s1" using ids_drawn_getSession [OF assms, of now b] g by simp
  then show ?thesis
    by (simp add: change_password_def g ids_drawn_set_password_hash split: option.splits)
qed

lemma ids_drawn_filter:
  assumes "ids_drawn s"
  shows "ids_drawn (s\<lparr>points_transactions := filter P (points_transactions s)\<rparr>)"
    and "ids_drawn (s\<lparr>orders := filter Q (orders s)\<rparr>)"
    and "ids_drawn (s\<lparr>users := filter R (users s)\<rparr>)"
  using assms by (auto simp: ids_drawn_def)

lemma ids_drawn_delete_account:
  assumes "ids_drawn s"
  shows "ids_drawn (snd (delete_account now b s))"
proof -
  obtain sess s1 where g: "getSession now b s = (sess, s1)" by (cases "getSession now b s")
  have s1: "ids_drawn s1" using ids_drawn_getSession [OF assms, of now b] g by simp
  show ?thesis
  proof (cases sess)
    case None
    with s1 show ?thesis by (simp add: delete_account_def g)
  next
    case (Some x)
    let ?s2 = "s1\<lparr>points_transactions := filter (\<lambda>e. user_id e \<noteq> userId x) (points_transactions s1)\<rparr>"
    let ?s3 = "?s2\<lparr>orders := filter (\<lambda>ord. order_user_id ord \<noteq> Some (userId x)) (orders ?s2)\<rparr>"
    let ?s4 = "?s3\<lparr>users := filter (\<lambda>u. uid u \<noteq> userId x) (users ?s3)\<rparr>"
    have "ids_drawn ?s2" using s1 by (rule ids_drawn_filter)
    then have "ids_drawn ?s3" by (rule ids_drawn_filter)
    then have "ids_drawn ?s4" by (rule ids_drawn_filter)
    then have "ids_drawn (logout b ?s4)" by (rule ids_drawn_logout)
    then show ?thesis by (simp add: delete_account_def g Some Let_def)
  qed
qed

subsection \<open>Runs\<close>

lemma ids_drawn_step: "ids_drawn s \<Longrightarrow> ids_drawn (step h now r s)"
proof (cases r)
  case (WebhookCompleted k)
  assume a: "ids_drawn s"
  show ?thesis
  proof (cases "k < length (stripe_sessions s)")
    case True
    then have "stripe_sessions s ! k \<in> set (stripe_sessions s)" by simp
    from ids_drawn_stripe_webhook_own [OF a this] True WebhookCompleted
    show ?thesis by simp
  next
    case False
    with a WebhookCompleted show ?thesis by simp
  qed
next
  case (WebhookUnverified present ev)
  assume "ids_drawn s"
  with WebhookUnverified show ?thesis by (simp add: stripe_webhook_unverified)
qed (simp_all add: ids_drawn_register ids_drawn_login ids_drawn_logout ids_drawn_getSession
       ids_drawn_calculate_discount_handler ids_drawn_create_session
       ids_drawn_stripe_webhook_other ids_drawn_newsletter_subscribe ids_drawn_update_profile
       ids_drawn_change_password ids_drawn_delete_account)

lemma ledger_sum_ok_step:
  assumes "ledger_sum_ok s" and "ids_drawn s"
  shows "ledger_sum_ok (step h now r s)"
  using assms
  by (cases r)
     (simp_all add: ledger_sum_ok_register ledger_sum_ok_login ledger_sum_ok_stripe_webhook
        ledger_sum_ok_calculate_discount_handler ledger_sum_ok_create_session
        ledger_sum_ok_newsletter_subscribe ledger_sum_ok_update_profile
        ledger_sum_ok_change_password ledger_sum_ok_delete_account)

lemma init_state_ok: "ledger_sum_ok init_state" "ids_drawn init_state"
  by (simp_all add: init_state_def ledger_sum_ok_def ids_drawn_def)

lemma run_invariant:
  assumes "ledger_sum_ok s" and "ids_drawn s"
  shows "ledger_sum_ok (run h rs s) \<and> ids_drawn (run h rs s)"
  using assms
proof (induction rs arbitrary: s)
  case Nil
  then show ?case by simp
next
  case (Cons a rs)
  obtain now r where a: "a = (now, r)" by (cases a)
  have "ledger_sum_ok (step h now r s)" "ids_drawn (step h now r s)"
    using Cons.prems by (simp_all add: ledger_sum_ok_step ids_drawn_step)
  from Cons.IH [OF this] show ?case by (simp add: a)
qed

subsection \<open>Rows after the statements\<close>

lemma find_map_keep:
  assumes "\<And>x. P (f x) = P x"
  shows "find P (map f xs) = map_option f (find P xs)"
  using assms by (induction xs) simp_all

lemma select_user_add_points:
  "select_user j (add_points d i s) =
     map_option (\<lambda>u. if uid u = i then u\<lparr>points_balance := points_balance u + d\<rparr> else u)
       (select_user j s)"
  unfolding select_user_def add_points_fields
  by (rule find_map_keep) simp

lemma select_user_set_tier:
  "select_user j (set_tier t i s) =
     map_option (\<lambda>u. if uid u = i then u\<lparr>tier := t\<rparr> else u) (select_user j s)"
  unfolding select_user_def set_tier_fields
  by (rule find_map_keep) simp

lemma select_user_same [simp]:
  "select_user j (insert_transaction i a ty src ref s) = select_user j s"
  "select_user j (set_paid oid s) = select_user j s"
  "select_user j (set_points_earned n oid s) = select_user j s"
  "select_user j (set_stripe_session_id sid oid s) = select_user j s"
  by (simp_all add: select_user_def)

lemma select_user_uid: "select_user j s = Some u \<Longrightarrow> uid u = j"
  by (auto simp: select_user_def find_Some_iff)

lemma select_order_set_paid:
  "select_order j (set_paid i s) =
     map_option (\<lambda>ord. if order_id ord = i then ord\<lparr>status := paid\<rparr> else ord) (select_order j s)"
  unfolding select_order_def set_paid_fields
  by (rule find_map_keep) simp

lemma select_order_set_points_earned:
  "select_order j (set_points_earned n i s) =
     map_option (\<lambda>ord. if order_id ord = i then ord\<lparr>points_earned := n\<rparr> else ord) (select_order j s)"
  unfolding select_order_def set_points_earned_fields
  by (rule find_map_keep) simp

lemma select_order_set_stripe_session_id:
  "select_order j (set_stripe_session_id sid i s) =
     map_option (\<lambda>ord. if order_id ord = i then ord\<lparr>stripe_session_id := Some sid\<rparr> else ord)
       (select_order j s)"
  unfolding select_order_def set_stripe_session_id_fields
  by (rule find_map_keep) simp

lemma select_order_same [simp]:
  "select_order j (insert_transaction i a ty src ref s) = select_order j s"
  "select_order j (add_points d i s) = select_order j s"
  "select_order j (set_tier t i s) = select_order j s"
  by (simp_all add: select_order_def)

lemma select_order_id: "select_order j s = Some ord \<Longrightarrow> order_id ord = j"
  by (auto simp: select_order_def find_Some_iff)

subsection \<open>The settlement, statement by statement\<close>

text \<open>The points that the settlement deducts, and the points it awards.\<close>

lemma settle_ledger:
  assumes "select_user i s = Some u"
  shows "points_transactions (settle oid i p ord s) =
     (let n = (case p of None \<Rightarrow> 0 | Some x \<Rightarrow> x);
          spent = (if 0 < n then n else 0);
          earned = calculatePointsEarned (order_total ord) (getTier (Fin (points_balance u - spent)))
      in points_transactions s @
         (if 0 < n
          then [\<lparr>tx_id = next_id s, user_id = i, amount = - n, tx_type = SPEND,
                  source = Some ORDER, reference_id = Some oid\<rparr>]
          else []) @
         [\<lparr>tx_id = (if 0 < n then Suc (next_id s) else next_id s), user_id = i, amount = earned,
            tx_type = EARN, source = Some ORDER, reference_id = Some oid\<rparr>])"
proof -
  have i: "uid u = i" using assms by (rule select_user_uid)
  show ?thesis
    using assms i
    by (simp add: settle_def Let_def select_user_add_points split: option.splits)
qed

lemma settle_user:
  assumes "select_user i s = Some u"
  shows "select_user i (settle oid i p ord s) =
     (let n = (case p of None \<Rightarrow> 0 | Some x \<Rightarrow> x);
          spent = (if 0 < n then n else 0);
          earned = calculatePointsEarned (order_total ord) (getTier (Fin (points_balance u - spent)))
      in Some (u\<lparr>points_balance := points_balance u - spent + earned,
                  tier := name (getTier (Fin (points_balance u - spent - n + earned)))\<rparr>))"
proof -
  have i: "uid u = i" using assms by (rule select_user_uid)
  show ?thesis
    using assms i
    by (simp add: settle_def Let_def select_user_add_points select_user_set_tier
             split: option.splits)
qed

lemma settle_order:
  assumes "select_user i s = Some u"
  shows "select_order j (settle oid i p ord s) =
     (let n = (case p of None \<Rightarrow> 0 | Some x \<Rightarrow> x);
          spent = (if 0 < n then n else 0);
          earned = calculatePointsEarned (order_total ord) (getTier (Fin (points_balance u - spent)))
      in map_option (\<lambda>x. if order_id x = oid then x\<lparr>points_earned := earned\<rparr> else x)
           (select_order j s))"
proof -
  have i: "uid u = i" using assms by (rule select_user_uid)
  show ?thesis
    using assms i
    by (simp add: settle_def Let_def select_user_add_points select_order_set_points_earned
             split: option.splits cong: if_cong)
qed

lemma settle_appends:
  "\<exists>new. points_transactions (settle oid i p ord s) = points_transactions s @ new"
  by (simp add: settle_def Let_def split: option.splits)

lemma stripe_webhook_settles:
  assumes "md_orderId md = Some oid" and "md_userId md = Some i"
    and "select_order oid s = Some ord"
  shows "stripe_webhook (Some True) (CheckoutSessionCompleted md) s =
           (Inr (), settle oid i (md_pointsUsed md) (ord\<lparr>status := paid\<rparr>) (set_paid oid s))"
proof -
  have "order_id ord = oid" using assms(3) by (rule select_order_id)
  then show ?thesis
    using assms by (simp add: stripe_webhook_def Let_def select_order_set_paid)
qed

lemma stripe_webhook_appends:
  "\<exists>new. points_transactions (snd (stripe_webhook sig ev s)) = points_transactions s @ new"
proof -
  have "\<exists>new. points_transactions (settle oid i p ord (set_paid oid s)) = points_transactions s @ new"
    for oid i p ord
    using settle_appends [of oid i p ord "set_paid oid s"] by simp
  then show ?thesis
    by (simp add: stripe_webhook_def Let_def split: option.splits stripe_event.splits)
qed

text \<open>
  Claim C1, as amended. The webhook does not look at the status of the order. When it is
  invoked for an order that is already \<open>paid\<close>, with a valid signature and the order and
  user rows present, it answers with success and applies the ledger effects again: it
  appends one EARN entry, preceded by one SPEND entry when \<open>pointsUsed > 0\<close>, and the
  balance changes by the points earned minus the points spent, the points earned being
  computed from the order total and the tier of the balance after the deduction. The order
  stays \<open>paid\<close>.
\<close>

theorem C1_settlement_reapplied:
  assumes "select_order oid s = Some ord" and "status ord = paid"
    and "select_user i s = Some u"
    and "md_orderId md = Some oid" and "md_userId md = Some i"
  shows "(let n = (case md_pointsUsed md of None \<Rightarrow> 0 | Some x \<Rightarrow> x);
              spent = (if 0 < n then n else 0);
              earned = calculatePointsEarned (order_total ord)
                         (getTier (Fin (points_balance u - spent)));
              (response, s') = stripe_webhook (Some True) (CheckoutSessionCompleted md) s
          in response = Inr () \<and>
             points_transactions s' =
               points_transactions s @
               (if 0 < n
                then [\<lparr>tx_id = next_id s, user_id = i, amount = - n, tx_type = SPEND,
                        source = Some ORDER, reference_id = Some oid\<rparr>]
                else []) @
               [\<lparr>tx_id = (if 0 < n then Suc (next_id s) else next_id s), user_id = i,
                  amount = earned, tx_type = EARN, source = Some ORDER,
                  reference_id = Some oid\<rparr>] \<and>
             map_option points_balance (select_user i s') =
               Some (points_balance u - spent + earned) \<and>
             map_option status (select_order oid s') = Some paid)"
proof -
  have u: "select_user i (set_paid oid s) = Some u" using assms(3) by simp
  have o: "order_id ord = oid" using assms(1) by (rule select_order_id)
  show ?thesis
    unfolding stripe_webhook_settles [OF assms(4,5,1)]
    using assms(1,2) o
    by (simp add: Let_def settle_ledger [OF u] settle_user [OF u] settle_order [OF u]
          select_order_set_paid)
qed

subsection \<open>Evaluating the example runs\<close>

lemmas eval_defs = register_def login_def create_session_def stripe_webhook_def settle_def
  newsletter_subscribe_def delete_account_def getSession_def logout_def redemption_def
  select_user_def select_user_by_email_def select_order_def generateId_def init_state_def
  insert_transaction_def add_points_def set_tier_def set_paid_def set_points_earned_def
  set_stripe_session_id_def set_verified_def Let_def toLowerCase_def example_hash_def
  or_null_def SIGNUP_BONUS_def NEWSLETTER_BONUS_def week_ms_def

lemma example_subtotals:
  "cartSubtotalCents [example_item 100] = 10000"
  "cartSubtotalCents [example_item 380] = 38000"
proof -
  have d: "double 100 = 100" "double 380 = 380" "double 10000 = 10000" "double 38000 = 38000"
    using double_of_int [of 100] double_of_int [of 380] double_of_int [of 10000]
      double_of_int [of 38000] by simp_all
  show "cartSubtotalCents [example_item 100] = 10000"
    by (simp add: cartSubtotalCents_def itemTotalCents_def example_item_def d floor_rat_numeral)
  show "cartSubtotalCents [example_item 380] = 38000"
    by (simp add: cartSubtotalCents_def itemTotalCents_def example_item_def d floor_rat_numeral)
qed

lemma example_pending_eq:
  "example_pending =
     \<lparr>users = [\<lparr>uid = 0, email = ''ann@example.org'', user_name = None,
                 password_hash = ''password'', points_balance = 50, tier = ''MOON'',
                 verified_at = True\<rparr>],
      points_transactions = [\<lparr>tx_id = 2, user_id = 0, amount = 50, tx_type = EARN,
                               source = Some SIGNUP, reference_id = None\<rparr>],
      orders = [\<lparr>order_id = 4, order_user_id = Some 0, stripe_session_id = Some 5,
                  status = pending, subtotal = 10000, discount = 0, points_used = 0,
                  points_earned = 0, order_total = 10000\<rparr>],
      newsletter_subscribers = [],
      SESSIONS = [3 \<mapsto> \<lparr>userId = 0, session_email = ''ann@example.org'', session_name = None,
                           session_tier = ''MOON'', createdAt = 0, expiresAt = 604800000\<rparr>],
      stripe_sessions = [(5, \<lparr>md_orderId = Some 4, md_userId = Some 0, md_pointsUsed = Some 0,
                               md_discountCents = Some 0\<rparr>)],
      next_id = 6\<rparr>"
  unfolding example_pending_def
  by (simp add: eval_defs example_subtotals floor_rat_numeral One_nat_def [symmetric]
        del: One_nat_def)


lemma tier_names [simp]: "name MOON = ''MOON''" "name ECLIPSE = ''ECLIPSE''" "name NOVA = ''NOVA''"
  by (simp_all add: MOON_def ECLIPSE_def NOVA_def)

lemma earned_MOON:
  assumes "0 \<le> c" and "c < 2 ^ 46"
  shows "calculatePointsEarned c MOON = c div 100"
proof -
  have "MOON \<in> set TIERS" by (simp add: TIERS_def)
  from calculatePointsEarned_exact [OF this assms] show ?thesis by (simp add: MOON_def)
qed

lemma example_paid_eq:
  "example_paid =
     \<lparr>users = [\<lparr>uid = 0, email = ''ann@example.org'', user_name = None,
                 password_hash = ''password'', points_balance = 150, tier = ''MOON'',
                 verified_at = True\<rparr>],
      points_transactions =
        [\<lparr>tx_id = 2, user_id = 0, amount = 50, tx_type = EARN,
           source = Some SIGNUP, reference_id = None\<rparr>,
         \<lparr>tx_id = 6, user_id = 0, amount = 100, tx_type = EARN,
           source = Some ORDER, reference_id = Some 4\<rparr>],
      orders = [\<lparr>order_id = 4, order_user_id = Some 0, stripe_session_id = Some 5,
                  status = paid, subtotal = 10000, discount = 0, points_used = 0,
                  points_earned = 100, order_total = 10000\<rparr>],
      newsletter_subscribers = [],
      SESSIONS = [3 \<mapsto> \<lparr>userId = 0, session_email = ''ann@example.org'', session_name = None,
                           session_tier = ''MOON'', createdAt = 0, expiresAt = 604800000\<rparr>],
      stripe_sessions = [(5, \<lparr>md_orderId = Some 4, md_userId = Some 0, md_pointsUsed = Some 0,
                               md_discountCents = Some 0\<rparr>)],
      next_id = 7\<rparr>"
  unfolding example_paid_def example_pending_eq
  by (simp add: eval_defs getTier_cases earned_MOON)

lemma example_paid_twice_eq:
  "example_paid_twice =
     \<lparr>users = [\<lparr>uid = 0, email = ''ann@example.org'', user_name = None,
                 password_hash = ''password'', points_balance = 250, tier = ''MOON'',
                 verified_at = True\<rparr>],
      points_transactions =
        [\<lparr>tx_id = 2, user_id = 0, amount = 50, tx_type = EARN,
           source = Some SIGNUP, reference_id = None\<rparr>,
         \<lparr>tx_id = 6, user_id = 0, amount = 100, tx_type = EARN,
           source = Some ORDER, reference_id = Some 4\<rparr>,
         \<lparr>tx_id = 7, user_id = 0, amount = 100, tx_type = EARN,
           source = Some ORDER, reference_id = Some 4\<rparr>],
      orders = [\<lparr>order_id = 4, order_user_id = Some 0, stripe_session_id = Some 5,
                  status = paid, subtotal = 10000, discount = 0, points_used = 0,
                  points_earned = 100, order_total = 10000\<rparr>],
      newsletter_subscribers = [],
      SESSIONS = [3 \<mapsto> \<lparr>userId = 0, session_email = ''ann@example.org'', session_name = None,
                           session_tier = ''MOON'', createdAt = 0, expiresAt = 604800000\<rparr>],
      stripe_sessions = [(5, \<lparr>md_orderId = Some 4, md_userId = Some 0, md_pointsUsed = Some 0,
                               md_discountCents = Some 0\<rparr>)],
      next_id = 8\<rparr>"
  unfolding example_paid_twice_def example_paid_eq
  by (simp add: eval_defs getTier_cases earned_MOON)

text \<open>
  Counterexample to C1 as stated. After the first confirmation of the example order the
  order is \<open>paid\<close>, the customer has 150 points and the ledger has two entries. The second
  confirmation answers with success, and leaves 250 points and three entries.
\<close>

theorem C1_counterexample:
  "map status (orders example_paid) = [paid] \<and>
   map points_balance (users example_paid) = [150] \<and>
   length (points_transactions example_paid) = 2 \<and>
   fst (stripe_webhook (Some True)
          (CheckoutSessionCompleted (snd (stripe_sessions example_paid ! 0))) example_paid) = Inr () \<and>
   snd (stripe_webhook (Some True)
          (CheckoutSessionCompleted (snd (stripe_sessions example_paid ! 0))) example_paid) =
     example_paid_twice \<and>
   map points_balance (users example_paid_twice) = [250] \<and>
   length (points_transactions example_paid_twice) = 3"
proof -
  have before: "map status (orders example_paid) = [paid] \<and>
      map points_balance (users example_paid) = [150] \<and>
      length (points_transactions example_paid) = 2"
    by (simp add: example_paid_eq)
  have response: "fst (stripe_webhook (Some True)
          (CheckoutSessionCompleted (snd (stripe_sessions example_paid ! 0))) example_paid) = Inr ()"
    by (simp add: example_paid_eq stripe_webhook_def Let_def split: option.splits)
  have state: "snd (stripe_webhook (Some True)
          (CheckoutSessionCompleted (snd (stripe_sessions example_paid ! 0))) example_paid) =
     example_paid_twice"
    by (simp add: example_paid_twice_def example_paid_eq)
  have after: "map points_balance (users example_paid_twice) = [250] \<and>
      length (points_transactions example_paid_twice) = 3"
    by (simp add: example_paid_twice_eq)
  from before response state after show ?thesis by blast
qed

text \<open>Witness for C1 as amended: the second confirmation of the example order.\<close>

theorem C1_settlement_reapplied_witness:
  "select_order 4 example_paid =
     Some \<lparr>order_id = 4, order_user_id = Some 0, stripe_session_id = Some 5,
            status = paid, subtotal = 10000, discount = 0, points_used = 0,
            points_earned = 100, order_total = 10000\<rparr> \<and>
   map_option points_balance (select_user 0 example_paid) = Some 150 \<and>
   (let (response, s') =
          stripe_webhook (Some True)
            (CheckoutSessionCompleted
               \<lparr>md_orderId = Some 4, md_userId = Some 0, md_pointsUsed = Some 0,
                 md_discountCents = Some 0\<rparr>) example_paid
    in response = Inr () \<and>
       points_transactions s' =
         points_transactions example_paid @
         [\<lparr>tx_id = 7, user_id = 0, amount = 100, tx_type = EARN, source = Some ORDER,
            reference_id = Some 4\<rparr>] \<and>
       map_option points_balance (select_user 0 s') = Some 250 \<and>
       map_option status (select_order 4 s') = Some paid)"
proof -
  let ?ord = "\<lparr>order_id = 4, order_user_id = Some 0, stripe_session_id = Some 5,
            status = paid, subtotal = 10000, discount = 0, points_used = 0,
            points_earned = 100, order_total = 10000\<rparr>"
  let ?u = "\<lparr>uid = 0, email = ''ann@example.org'', user_name = None,
                 password_hash = ''password'', points_balance = 150, tier = ''MOON'',
                 verified_at = True\<rparr>"
  let ?md = "\<lparr>md_orderId = Some 4, md_userId = Some 0, md_pointsUsed = Some 0,
                 md_discountCents = Some 0\<rparr>"
  have o: "select_order 4 example_paid = Some ?ord"
    by (simp add: example_paid_eq select_order_def)
  have p: "status ?ord = paid" by simp
  have u: "select_user 0 example_paid = Some ?u"
    by (simp add: example_paid_eq select_user_def)
  have m: "md_orderId ?md = Some 4" "md_userId ?md = Some 0" by simp_all
  have n: "next_id example_paid = 7" by (simp add: example_paid_eq)
  show ?thesis
    using C1_settlement_reapplied [OF o p u m] o u
    by (simp add: Let_def getTier_cases earned_MOON n split: prod.splits)
qed

subsection \<open>The ledger under each request\<close>

lemma register_appends:
  "\<exists>new. points_transactions (snd (register h now e p n s)) = points_transactions s @ new"
  by (simp add: register_def Let_def generateId_def split: option.splits)

lemma login_ledger: "points_transactions (snd (login h now e p s)) = points_transactions s"
  by (simp add: login_def Let_def generateId_def split: option.splits)

lemma calculate_discount_handler_ledger:
  "points_transactions (snd (calculate_discount_handler now b c p s)) = points_transactions s"
proof -
  have "snd (calculate_discount_handler now b c p s) = snd (getSession now b s)"
    by (simp add: calculate_discount_handler_def split: prod.splits option.splits)
  then show ?thesis by simp
qed

lemma create_session_ledger:
  "points_transactions (snd (create_session now b items p ok s)) = points_transactions s"
proof -
  obtain sess s1 where g: "getSession now b s = (sess, s1)" by (cases "getSession now b s")
  then have "points_transactions s1 = points_transactions s"
    using getSession_fields(2) [of now b s] by simp
  then show ?thesis
    by (simp add: create_session_def g Let_def generateId_def split: prod.splits)
qed

lemma newsletter_subscribe_appends:
  "\<exists>new. points_transactions (snd (newsletter_subscribe now b e s)) = points_transactions s @ new"
proof -
  let ?s2 = "s\<lparr>next_id := Suc (next_id s),
               newsletter_subscribers := newsletter_subscribers s @ [toLowerCase e]\<rparr>"
  obtain sess s3 where g: "getSession now b ?s2 = (sess, s3)" by (cases "getSession now b ?s2")
  then have "points_transactions s3 = points_transactions s"
    using getSession_fields(2) [of now b ?s2] by simp
  then show ?thesis
    by (simp add: newsletter_subscribe_def g Let_def generateId_def split: option.splits)
qed

lemma update_profile_ledger:
  "points_transactions (snd (update_profile now b n s)) = points_transactions s"
proof -
  obtain sess s1 where g: "getSession now b s = (sess, s1)" by (cases "getSession now b s")
  then have "points_transactions s1 = points_transactions s"
    using getSession_fields(2) [of now b s] by simp
  then show ?thesis by (simp add: update_profile_def g split: option.splits)
qed

lemma change_password_ledger:
  "points_transactions (snd (change_password h now b c n s)) = points_transactions s"
proof -
  obtain sess s1 where g: "getSession now b s = (sess, s1)" by (cases "getSession now b s")
  then have "points_transactions s1 = points_transactions s"
    using getSession_fields(2) [of now b s] by simp
  then show ?thesis by (simp add: change_password_def g split: option.splits)
qed

lemma delete_account_ledger:
  "points_transactions (snd (delete_account now b s)) =
     (case fst (getSession now b s) of
        None \<Rightarrow> points_transactions s
      | Some sess \<Rightarrow> filter (\<lambda>e. user_id e \<noteq> userId sess) (points_transactions s))"
proof -
  obtain sess s1 where g: "getSession now b s = (sess, s1)" by (cases "getSession now b s")
  then have "points_transactions s1 = points_transactions s"
    using getSession_fields(2) [of now b s] by simp
  then show ?thesis by (simp add: delete_account_def g Let_def split: option.splits)
qed

lemma step_appends:
  assumes "\<forall>b. r \<noteq> DeleteAccount b"
  shows "\<exists>new. points_transactions (step h now r s) = points_transactions s @ new"
proof (cases r)
  case (Register e p n)
  then show ?thesis using register_appends by simp
next
  case (WebhookCompleted k)
  then show ?thesis using stripe_webhook_appends by simp
next
  case WebhookOther
  then show ?thesis using stripe_webhook_appends by simp
next
  case (WebhookUnverified present ev)
  then show ?thesis using stripe_webhook_appends by simp
next
  case (NewsletterSubscribe b e)
  then show ?thesis using newsletter_subscribe_appends by simp
next
  case (DeleteAccount b)
  with assms show ?thesis by simp
qed (simp_all add: login_ledger calculate_discount_handler_ledger create_session_ledger
       update_profile_ledger change_password_ledger)

text \<open>
  Claim C2, as amended. Every request other than the deletion of an account leaves every
  ledger entry in place and unchanged: the ledger afterwards is the ledger before followed by
  the new entries. The deletion of an account, when the caller has a valid session, deletes
  exactly the entries of the caller's user id and keeps all other entries, in order; without a
  valid session it changes nothing.
\<close>

theorem C2_ledger_kept_except_delete:
  "((\<forall>b. r \<noteq> DeleteAccount b) \<longrightarrow>
      (\<exists>new. points_transactions (step h now r s) = points_transactions s @ new)) \<and>
   (\<forall>b. r = DeleteAccount b \<longrightarrow>
      points_transactions (step h now r s) =
        (case fst (getSession now b s) of
           None \<Rightarrow> points_transactions s
         | Some sess \<Rightarrow> filter (\<lambda>e. user_id e \<noteq> userId sess) (points_transactions s)))"
  using step_appends [of r h now s] by (simp add: delete_account_ledger)

text \<open>
  Witness for C2 as amended: a confirmation appends one entry to the example ledger, and a
  deletion by the customer with user id 0 keeps the entries of the other user ids.
\<close>

theorem C2_ledger_kept_except_delete_witness:
  "(\<forall>b. WebhookCompleted 0 \<noteq> DeleteAccount b) \<and>
   points_transactions (step example_hash 2 (WebhookCompleted 0) example_pending) =
     points_transactions example_pending @
       [\<lparr>tx_id = 6, user_id = 0, amount = 100, tx_type = EARN,
          source = Some ORDER, reference_id = Some 4\<rparr>] \<and>
   fst (getSession 3 (Some 3) example_paid) =
     Some \<lparr>userId = 0, session_email = ''ann@example.org'', session_name = None,
            session_tier = ''MOON'', createdAt = 0, expiresAt = 604800000\<rparr> \<and>
   points_transactions (step example_hash 3 (DeleteAccount (Some 3)) example_paid) =
     filter (\<lambda>e. user_id e \<noteq> 0) (points_transactions example_paid)"
proof -
  have a: "points_transactions (step example_hash 2 (WebhookCompleted 0) example_pending) =
     points_transactions example_pending @
       [\<lparr>tx_id = 6, user_id = 0, amount = 100, tx_type = EARN,
          source = Some ORDER, reference_id = Some 4\<rparr>]"
    using example_paid_eq by (simp add: example_paid_def example_pending_eq)
  have g: "fst (getSession 3 (Some 3) example_paid) =
     Some \<lparr>userId = 0, session_email = ''ann@example.org'', session_name = None,
            session_tier = ''MOON'', createdAt = 0, expiresAt = 604800000\<rparr>"
    by (simp add: example_paid_eq getSession_def)
  have "points_transactions (step example_hash 3 (DeleteAccount (Some 3)) example_paid) =
     filter (\<lambda>e. user_id e \<noteq> 0) (points_transactions example_paid)"
    using C2_ledger_kept_except_delete [of "DeleteAccount (Some 3)" example_hash 3 example_paid]
    by (simp add: g)
  with a g show ?thesis
    using C2_ledger_kept_except_delete [of "WebhookCompleted 0" example_hash 2 example_pending]
    by simp
qed

text \<open>
  Counterexample to C2 as stated: the customer of the example deletes the account, and the
  two ledger entries that existed before are gone.
\<close>

theorem C2_counterexample:
  "points_transactions example_paid =
     [\<lparr>tx_id = 2, user_id = 0, amount = 50, tx_type = EARN,
        source = Some SIGNUP, reference_id = None\<rparr>,
      \<lparr>tx_id = 6, user_id = 0, amount = 100, tx_type = EARN,
        source = Some ORDER, reference_id = Some 4\<rparr>] \<and>
   points_transactions (snd (delete_account 3 (Some 3) example_paid)) = []"
  by (simp add: example_paid_eq delete_account_def getSession_def logout_def Let_def)

subsection \<open>The ledger sum\<close>

text \<open>
  Claim C3. After any sequence of requests from the empty state (registration, login, logout,
  reads, discount preview, checkout creation, webhooks, newsletter subscription, profile and
  password changes, account deletion), the balance of every user row equals the sum of the
  amounts of the ledger entries of that user. Each request runs to its end before the next
  one starts.
\<close>

theorem C3_ledger_sum_invariant:
  "\<forall>u \<in> set (users (run h rs init_state)).
     points_balance u = balanceFor (uid u) (points_transactions (run h rs init_state))"
  using run_invariant [OF init_state_ok, of h rs] by (simp add: ledger_sum_ok_def)

lemma example_loyal_eq:
  "example_loyal =
     \<lparr>users = [\<lparr>uid = 0, email = ''ann@example.org'', user_name = None,
                 password_hash = ''password'', points_balance = 430, tier = ''MOON'',
                 verified_at = True\<rparr>],
      points_transactions =
        [\<lparr>tx_id = 2, user_id = 0, amount = 50, tx_type = EARN,
           source = Some SIGNUP, reference_id = None\<rparr>,
         \<lparr>tx_id = 6, user_id = 0, amount = 380, tx_type = EARN,
           source = Some ORDER, reference_id = Some 4\<rparr>],
      orders = [\<lparr>order_id = 4, order_user_id = Some 0, stripe_session_id = Some 5,
                  status = paid, subtotal = 38000, discount = 0, points_used = 0,
                  points_earned = 380, order_total = 38000\<rparr>],
      newsletter_subscribers = [],
      SESSIONS = [3 \<mapsto> \<lparr>userId = 0, session_email = ''ann@example.org'', session_name = None,
                           session_tier = ''MOON'', createdAt = 0, expiresAt = 604800000\<rparr>],
      stripe_sessions = [(5, \<lparr>md_orderId = Some 4, md_userId = Some 0, md_pointsUsed = Some 0,
                               md_discountCents = Some 0\<rparr>)],
      next_id = 7\<rparr>"
  unfolding example_loyal_def
  by (simp add: eval_defs floor_rat_numeral getTier_cases earned_MOON example_subtotals
        One_nat_def [symmetric] del: One_nat_def)

lemma example_redeeming_eq:
  "example_redeeming =
     \<lparr>users = [\<lparr>uid = 0, email = ''ann@example.org'', user_name = None,
                 password_hash = ''password'', points_balance = 430, tier = ''MOON'',
                 verified_at = True\<rparr>],
      points_transactions =
        [\<lparr>tx_id = 2, user_id = 0, amount = 50, tx_type = EARN,
           source = Some SIGNUP, reference_id = None\<rparr>,
         \<lparr>tx_id = 6, user_id = 0, amount = 380, tx_type = EARN,
           source = Some ORDER, reference_id = Some 4\<rparr>],
      orders = [\<lparr>order_id = 4, order_user_id = Some 0, stripe_session_id = Some 5,
                  status = paid, subtotal = 38000, discount = 0, points_used = 0,
                  points_earned = 380, order_total = 38000\<rparr>,
                \<lparr>order_id = 7, order_user_id = Some 0, stripe_session_id = Some 8,
                  status = pending, subtotal = 10000, discount = 100, points_used = 20,
                  points_earned = 0, order_total = 9900\<rparr>],
      newsletter_subscribers = [],
      SESSIONS = [3 \<mapsto> \<lparr>userId = 0, session_email = ''ann@example.org'', session_name = None,
                           session_tier = ''MOON'', createdAt = 0, expiresAt = 604800000\<rparr>],
      stripe_sessions = [(5, \<lparr>md_orderId = Some 4, md_userId = Some 0, md_pointsUsed = Some 0,
                               md_discountCents = Some 0\<rparr>),
                         (8, \<lparr>md_orderId = Some 7, md_userId = Some 0, md_pointsUsed = Some 20,
                               md_discountCents = Some 100\<rparr>)],
      next_id = 9\<rparr>"
  unfolding example_redeeming_def example_loyal_eq
  by (simp add: eval_defs floor_rat_numeral calculateMaxDiscount_div floor_div20 example_subtotals
        MIN_ORDER_FOR_REDEMPTION_def)

lemma example_settled_eq:
  "example_settled =
     \<lparr>users = [\<lparr>uid = 0, email = ''ann@example.org'', user_name = None,
                 password_hash = ''password'', points_balance = 509, tier = ''MOON'',
                 verified_at = True\<rparr>],
      points_transactions =
        [\<lparr>tx_id = 2, user_id = 0, amount = 50, tx_type = EARN,
           source = Some SIGNUP, reference_id = None\<rparr>,
         \<lparr>tx_id = 6, user_id = 0, amount = 380, tx_type = EARN,
           source = Some ORDER, reference_id = Some 4\<rparr>,
         \<lparr>tx_id = 9, user_id = 0, amount = - 20, tx_type = SPEND,
           source = Some ORDER, reference_id = Some 7\<rparr>,
         \<lparr>tx_id = 10, user_id = 0, amount = 99, tx_type = EARN,
           source = Some ORDER, reference_id = Some 7\<rparr>],
      orders = [\<lparr>order_id = 4, order_user_id = Some 0, stripe_session_id = Some 5,
                  status = paid, subtotal = 38000, discount = 0, points_used = 0,
                  points_earned = 380, order_total = 38000\<rparr>,
                \<lparr>order_id = 7, order_user_id = Some 0, stripe_session_id = Some 8,
                  status = paid, subtotal = 10000, discount = 100, points_used = 20,
                  points_earned = 99, order_total = 9900\<rparr>],
      newsletter_subscribers = [],
      SESSIONS = [3 \<mapsto> \<lparr>userId = 0, session_email = ''ann@example.org'', session_name = None,
                           session_tier = ''MOON'', createdAt = 0, expiresAt = 604800000\<rparr>],
      stripe_sessions = [(5, \<lparr>md_orderId = Some 4, md_userId = Some 0, md_pointsUsed = Some 0,
                               md_discountCents = Some 0\<rparr>),
                         (8, \<lparr>md_orderId = Some 7, md_userId = Some 0, md_pointsUsed = Some 20,
                               md_discountCents = Some 100\<rparr>)],
      next_id = 11\<rparr>"
  unfolding example_settled_def example_redeeming_eq
  by (simp add: eval_defs getTier_cases earned_MOON)

text \<open>
  Without a redemption the tier that the settlement stores is the tier of the new balance;
  so it is in the scenario of a balance of 480 and an order that earns 30.
\<close>

lemma settle_tier_without_redemption:
  assumes "select_user i s = Some u" and "p = None \<or> p = Some 0"
  shows "map_option (\<lambda>x. (points_balance x, tier x)) (select_user i (settle oid i p ord s)) =
     (let earned = calculatePointsEarned (order_total ord) (getTier (Fin (points_balance u)))
      in Some (points_balance u + earned, name (getTier (Fin (points_balance u + earned)))))"
  using assms(2) by (auto simp: settle_user [OF assms(1)] Let_def)

lemma settle_480_earns_30:
  assumes "select_user i s = Some u" and "points_balance u = 480" and "order_total ord = 3000"
  shows "map_option (\<lambda>x. (points_balance x, tier x)) (select_user i (settle oid i None ord s)) =
           Some (510, ''ECLIPSE'')"
  using assms(2,3)
  by (simp add: settle_tier_without_redemption [OF assms(1)] Let_def getTier_cases earned_MOON)

text \<open>
  Claim C8, evaluated at a failing input. A customer in tier MOON with 430 points redeems 20
  points on an order of 100.00. The settlement deducts 20 and awards 99, so the new balance
  is 509, whose tier is ECLIPSE; the stored tier stays MOON, because the handler reads the
  user row after the deduction and subtracts the points used a second time
  (\<open>410 - 20 + 99 = 489\<close>) before looking up the tier.
\<close>

theorem C8_tier_stale_after_redemption:
  "map (\<lambda>u. (points_balance u, tier u)) (users example_redeeming) = [(430, ''MOON'')] \<and>
   snd (stripe_webhook (Some True)
          (CheckoutSessionCompleted (snd (stripe_sessions example_redeeming ! 1)))
          example_redeeming) = example_settled \<and>
   map (\<lambda>u. (points_balance u, tier u)) (users example_settled) = [(509, ''MOON'')] \<and>
   name (getTier (Fin 509)) = ''ECLIPSE''"
proof -
  have before: "map (\<lambda>u. (points_balance u, tier u)) (users example_redeeming) = [(430, ''MOON'')]"
    by (simp add: example_redeeming_eq)
  have state: "snd (stripe_webhook (Some True)
          (CheckoutSessionCompleted (snd (stripe_sessions example_redeeming ! 1)))
          example_redeeming) = example_settled"
    by (simp add: example_settled_def example_redeeming_eq)
  have after: "map (\<lambda>u. (points_balance u, tier u)) (users example_settled) = [(509, ''MOON'')]"
    by (simp add: example_settled_eq)
  have expected: "name (getTier (Fin 509)) = ''ECLIPSE''"
    by (simp add: getTier_cases)
  from before state after expected show ?thesis by blast
qed

lemma example_settled_run:
  "example_settled =
     run example_hash
       [(0, Register ''ann@example.org'' ''password'' None),
        (1, CreateSession (Some 3) [example_item 380] None True),
        (2, WebhookCompleted 0),
        (3, CreateSession (Some 3) [example_item 100] (Some 20) True),
        (4, WebhookCompleted 1)] init_state"
  by (simp add: example_settled_def example_redeeming_def example_loyal_def)

text \<open>
  Witness for C3: after two orders, the second with a redemption, the customer's balance
  and the sum of the customer's entries are both 509.
\<close>

theorem C3_ledger_sum_invariant_witness:
  "map (\<lambda>u. (uid u, points_balance u)) (users example_settled) = [(0, 509)] \<and>
   balanceFor 0 (points_transactions example_settled) = 509"
proof -
  have u: "map (\<lambda>u. (uid u, points_balance u)) (users example_settled) = [(0, 509)]"
    by (simp add: example_settled_eq)
  have "\<forall>u \<in> set (users example_settled).
          points_balance u = balanceFor (uid u) (points_transactions example_settled)"
    unfolding example_settled_run by (rule C3_ledger_sum_invariant)
  then have "balanceFor 0 (points_transactions example_settled) = 509"
    by (simp add: example_settled_eq)
  with u show ?thesis by simp
qed

subsection \<open>Redemption at checkout and at settlement\<close>

lemma find_append_fresh:
  assumes "\<forall>y \<in> set xs. \<not> P y" and "P x"
  shows "find P (xs @ [x]) = Some x"
  using assms by (induction xs) simp_all

lemma redemption_within_max:
  assumes "select_user (userId sess) s = Some u"
    and "MIN_ORDER_FOR_REDEMPTION * 100 \<le> c"
    and "0 < r" and "r \<le> maxPoints (calculateMaxDiscount c (points_balance u))"
  shows "redemption (Some sess) (Some r) c s = (r div 20 * 100, r)"
  using assms by (simp add: redemption_def Let_def floor_div20 min_absorb1)

text \<open>
  Claim C10. A customer with a valid session and a user row checks out a cart at or above
  the minimum order and asks for \<open>r\<close> points, \<open>0 < r \<le> maxPoints\<close>. The order row
  records \<open>points_used = r\<close> and the discount \<open>floor(r / 20) * 100\<close>, the metadata carries
  \<open>r\<close>, and the settlement appends a SPEND entry of \<open>- r\<close> and leaves the balance at the old
  balance minus \<open>r\<close> plus the points earned. The discount is the one that \<open>r - r mod 20\<close>
  points would have bought, so the \<open>r mod 20 \<le> 19\<close> remaining points are deducted without
  any discount.
\<close>

theorem C10_redeemed_points_not_rounded:
  assumes "ids_drawn s"
    and "getSession now bearer s = (Some sess, s)"
    and "select_user (userId sess) s = Some u"
    and "items \<noteq> []"
    and "MIN_ORDER_FOR_REDEMPTION * 100 \<le> cartSubtotalCents items"
    and "0 < r"
    and "r \<le> maxPoints (calculateMaxDiscount (cartSubtotalCents items) (points_balance u))"
  shows "(let (response, s1) = create_session now bearer items (Some r) True s;
              oid = next_id s;
              md = snd (last (stripe_sessions s1));
              s2 = snd (stripe_webhook (Some True) (CheckoutSessionCompleted md) s1);
              finalTotal = cartSubtotalCents items - r div 20 * 100;
              earned = calculatePointsEarned finalTotal (getTier (Fin (points_balance u - r)))
          in response = Inr \<lparr>sessionId = Suc (next_id s), orderId = oid\<rparr> \<and>
             map_option points_used (select_order oid s1) = Some r \<and>
             map_option discount (select_order oid s1) = Some (r div 20 * 100) \<and>
             map_option order_total (select_order oid s1) = Some finalTotal \<and>
             md_orderId md = Some oid \<and> md_userId md = Some (userId sess) \<and>
             md_pointsUsed md = Some r \<and>
             points_transactions s2 =
               points_transactions s @
               [\<lparr>tx_id = Suc (Suc (next_id s)), user_id = userId sess, amount = - r,
                  tx_type = SPEND, source = Some ORDER, reference_id = Some oid\<rparr>,
                \<lparr>tx_id = Suc (Suc (Suc (next_id s))), user_id = userId sess, amount = earned,
                  tx_type = EARN, source = Some ORDER, reference_id = Some oid\<rparr>] \<and>
             map_option points_balance (select_user (userId sess) s2) =
               Some (points_balance u - r + earned) \<and>
             r div 20 * 100 = (r - r mod 20) div 20 * 100 \<and> r mod 20 \<le> 19)"
proof -
  define n where "n = next_id s"
  define c where "c = cartSubtotalCents items"
  define ord where "ord = \<lparr>order_id = n, order_user_id = Some (userId sess),
      stripe_session_id = None, status = pending, subtotal = c, discount = r div 20 * 100,
      points_used = r, points_earned = 0, order_total = c - r div 20 * 100\<rparr>"
  define md where "md = \<lparr>md_orderId = Some n, md_userId = Some (userId sess),
      md_pointsUsed = Some r, md_discountCents = Some (r div 20 * 100)\<rparr>"
  define s6 where "s6 = set_stripe_session_id (Suc n) n
      (s\<lparr>next_id := Suc (Suc n), orders := orders s @ [ord],
         stripe_sessions := stripe_sessions s @ [(Suc n, md)]\<rparr>)"
  define ord' where "ord' = ord\<lparr>stripe_session_id := Some (Suc n)\<rparr>"
  define earned where
    "earned = calculatePointsEarned (c - r div 20 * 100) (getTier (Fin (points_balance u - r)))"
  have red: "redemption (Some sess) (Some r) c s = (r div 20 * 100, r)"
    unfolding c_def using assms(3,5,6,7) by (rule redemption_within_max)
  have cs: "create_session now bearer items (Some r) True s =
              (Inr \<lparr>sessionId = Suc n, orderId = n\<rparr>, s6)"
    using assms(4) red
    by (simp add: create_session_def assms(2) Let_def generateId_def c_def [symmetric]
          n_def [symmetric] s6_def ord_def md_def)
  have fresh: "\<forall>x \<in> set (orders s). \<not> order_id x = n"
    using assms(1) by (auto simp: ids_drawn_def n_def)
  have "select_order n (s\<lparr>next_id := Suc (Suc n), orders := orders s @ [ord],
         stripe_sessions := stripe_sessions s @ [(Suc n, md)]\<rparr>) = Some ord"
    unfolding select_order_def using fresh by (simp add: find_append_fresh ord_def)
  then have so: "select_order n s6 = Some ord'"
    by (simp add: s6_def select_order_set_stripe_session_id ord'_def ord_def)
  have last: "snd (last (stripe_sessions s6)) = md"
    by (simp add: s6_def)
  have fields: "points_transactions s6 = points_transactions s" "next_id s6 = Suc (Suc n)"
    by (simp_all add: s6_def)
  have su: "select_user (userId sess) (set_paid n s6) = Some u"
    using assms(3) by (simp add: select_user_def s6_def)
  have wh: "stripe_webhook (Some True) (CheckoutSessionCompleted md) s6 =
              (Inr (), settle n (userId sess) (Some r) (ord'\<lparr>status := paid\<rparr>) (set_paid n s6))"
    using stripe_webhook_settles [of md n "userId sess" s6 ord'] so by (simp add: md_def)
  have ledger: "points_transactions (settle n (userId sess) (Some r) (ord'\<lparr>status := paid\<rparr>) (set_paid n s6)) =
      points_transactions s @
        [\<lparr>tx_id = Suc (Suc n), user_id = userId sess, amount = - r,
           tx_type = SPEND, source = Some ORDER, reference_id = Some n\<rparr>,
         \<lparr>tx_id = Suc (Suc (Suc n)), user_id = userId sess, amount = earned,
           tx_type = EARN, source = Some ORDER, reference_id = Some n\<rparr>]"
    using assms(6) by (simp add: settle_ledger [OF su] Let_def fields ord'_def ord_def earned_def)
  have balance: "map_option points_balance
        (select_user (userId sess) (settle n (userId sess) (Some r) (ord'\<lparr>status := paid\<rparr>) (set_paid n s6))) =
      Some (points_balance u - r + earned)"
    using assms(6) by (simp add: settle_user [OF su] Let_def ord'_def ord_def earned_def)
  have "r - r mod 20 = 20 * (r div 20)" by (simp add: minus_mod_eq_mult_div)
  then have "(r - r mod 20) div 20 = r div 20" by simp
  moreover have "r mod 20 < 20" by simp
  ultimately have arith: "r div 20 * 100 = (r - r mod 20) div 20 * 100 \<and> r mod 20 \<le> 19"
    by simp
  show ?thesis
    unfolding n_def [symmetric] c_def [symmetric] cs Let_def prod.case last wh snd_conv
      earned_def [symmetric]
    using so ledger balance arith
    by (simp add: ord'_def ord_def md_def)
qed


text \<open>
  Witness for C10: with 430 points, 30 points requested on a cart of 100.00 give a discount
  of 1.00 and a balance of \<open>430 - 30 + 99 = 499\<close>.
\<close>

theorem C10_redeemed_points_not_rounded_witness:
  "ids_drawn example_loyal \<and>
   fst (getSession 3 (Some 3) example_loyal) =
     Some \<lparr>userId = 0, session_email = ''ann@example.org'', session_name = None,
            session_tier = ''MOON'', createdAt = 0, expiresAt = 604800000\<rparr> \<and>
   map_option points_balance (select_user 0 example_loyal) = Some 430 \<and>
   cartSubtotalCents [example_item 100] = 10000 \<and>
   maxPoints (calculateMaxDiscount 10000 430) = 400 \<and>
   (let (response, s1) =
          create_session 3 (Some 3) [example_item 100] (Some 30) True example_loyal;
        s2 = snd (stripe_webhook (Some True)
                    (CheckoutSessionCompleted (snd (last (stripe_sessions s1)))) s1)
    in response = Inr \<lparr>sessionId = 8, orderId = 7\<rparr> \<and>
       map_option points_used (select_order 7 s1) = Some 30 \<and>
       map_option discount (select_order 7 s1) = Some 100 \<and>
       map_option order_total (select_order 7 s1) = Some 9900 \<and>
       map_option points_balance (select_user 0 s2) = Some 499)"
proof -
  let ?sess = "\<lparr>userId = 0, session_email = ''ann@example.org'', session_name = None,
            session_tier = ''MOON'', createdAt = 0, expiresAt = 604800000\<rparr>"
  let ?u = "\<lparr>uid = 0, email = ''ann@example.org'', user_name = None,
                 password_hash = ''password'', points_balance = 430, tier = ''MOON'',
                 verified_at = True\<rparr>"
  have h1: "ids_drawn example_loyal"
    unfolding example_loyal_def using run_invariant [OF init_state_ok] by blast
  have h2: "getSession 3 (Some 3) example_loyal = (Some ?sess, example_loyal)"
    by (simp add: example_loyal_eq getSession_def)
  have h3: "select_user (userId ?sess) example_loyal = Some ?u"
    by (simp add: example_loyal_eq select_user_def)
  have h4: "[example_item 100] \<noteq> []" by simp
  have c: "cartSubtotalCents [example_item 100] = 10000"
    by (rule example_subtotals)
  have h5: "MIN_ORDER_FOR_REDEMPTION * 100 \<le> cartSubtotalCents [example_item 100]"
    by (simp add: c MIN_ORDER_FOR_REDEMPTION_def)
  have h6: "(0::int) < 30" by simp
  have m: "maxPoints (calculateMaxDiscount 10000 430) = 400"
    by (simp add: calculateMaxDiscount_div)
  have h7: "30 \<le> maxPoints (calculateMaxDiscount (cartSubtotalCents [example_item 100])
                       (points_balance ?u))"
    by (simp add: c m)
  have n: "next_id example_loyal = 7" by (simp add: example_loyal_eq)
  have g: "fst (getSession 3 (Some 3) example_loyal) = Some ?sess"
    by (simp add: h2)
  have b: "map_option points_balance (select_user 0 example_loyal) = Some 430"
    using h3 by simp
  have main: "(let (response, s1) =
          create_session 3 (Some 3) [example_item 100] (Some 30) True example_loyal;
        s2 = snd (stripe_webhook (Some True)
                    (CheckoutSessionCompleted (snd (last (stripe_sessions s1)))) s1)
    in response = Inr \<lparr>sessionId = 8, orderId = 7\<rparr> \<and>
       map_option points_used (select_order 7 s1) = Some 30 \<and>
       map_option discount (select_order 7 s1) = Some 100 \<and>
       map_option order_total (select_order 7 s1) = Some 9900 \<and>
       map_option points_balance (select_user 0 s2) = Some 499)"
    using C10_redeemed_points_not_rounded [OF h1 h2 h3 h4 h5 h6 h7]
    by (simp add: Let_def c n getTier_cases earned_MOON split: prod.splits)
  from h1 g b c m main show ?thesis by blast
qed

end
